theory Spec2Isabelle
  imports Main
begin

section \<open>Data model\<close>

text \<open>
  The engine of \<^verbatim>\<open>vanstein/bytecode/engine.py\<close> runs one context (an execution frame) until
  it finishes, faults, or issues a call that needs a new context. Contexts are objects that
  refer to each other (\<^verbatim>\<open>prev_ctx\<close>, \<^verbatim>\<open>next_ctx\<close>), so they live in a store and are named by
  references.
\<close>

datatype VSCtxState = PENDING | RUNNING | SUSPENDED | ERRORED | FINISHED

text \<open>A \<^verbatim>\<open>dis.Instruction\<close>: the opcode name and the operand, which is \<^verbatim>\<open>None\<close> for opcodes
  without one.\<close>

record Instruction =
  opname :: string
  arg :: "nat option"

text \<open>Python exceptions, as far as the engine raises or forwards them.\<close>

datatype exn =
    IndexError
  | TypeError string
  | NotImplementedError string
  | HostError string

type_synonym ref = nat

text \<open>The two bound methods of a context that the engine registers on a callee:
  \<^verbatim>\<open>context._on_result_cb\<close> and \<^verbatim>\<open>context._on_exception_cb\<close>, each tagged with the context
  it is bound to.\<close>

datatype callback = on_result_cb ref | on_exception_cb ref

text \<open>
  Modelled from the spec: the class \<^verbatim>\<open>_VSContext\<close> (\<^verbatim>\<open>vanstein/context.py\<close>) is not part of
  the sources at hand. The fields are those of section 3 of the specification
  (\<^verbatim>\<open>caller\<close> is \<^verbatim>\<open>prev_ctx\<close> and \<^verbatim>\<open>callee\<close> is \<^verbatim>\<open>next_ctx\<close> in the engine). The head of
  \<open>stack\<close> is the top of the operand stack. \<open>fault\<close> is the fault attached for external
  inspection and \<open>notified\<close> records, in order, each exception callback that was fired and
  the fault it was given.
\<close>

record 'v VSContext =
  instructions :: "Instruction list"
  pointer :: nat
  stack :: "'v list"
  state :: VSCtxState
  prev_ctx :: "ref option"
  next_ctx :: "ref option"
  pending_args :: "'v list"
  done_callbacks :: "callback list"
  exception_callbacks :: "callback list"
  fault :: "exn option"
  notified :: "(callback \<times> exn) list"

text \<open>
  What the engine asks of the Python host and of the modules around it. Values are an
  abstract type \<open>'v\<close>; each field is one probe or operation that the engine applies to a
  value:
  \<^item> \<open>py_none\<close>: the value \<^verbatim>\<open>None\<close>;
  \<^item> \<open>is_type v\<close>: \<^verbatim>\<open>type(v) is type\<close>, and \<open>dunder_new v\<close>: \<^verbatim>\<open>v.__new__\<close>;
  \<^item> \<open>isbuiltin v\<close>: \<^verbatim>\<open>inspect.isbuiltin(v)\<close>;
  \<^item> \<open>has_native_invoke v\<close>: \<^verbatim>\<open>hasattr(v, "_native_invoke")\<close>;
  \<^item> \<open>is_VSWrappedFunction v\<close>: \<^verbatim>\<open>isinstance(v, VSWrappedFunction)\<close>;
  \<^item> \<open>callable v\<close>: \<^verbatim>\<open>callable(v)\<close>;
  \<^item> \<open>call v args\<close>: \<^verbatim>\<open>v(*args)\<close>, which returns a value or raises;
  \<^item> \<open>format v\<close>: \<^verbatim>\<open>"{}".format(v)\<close>;
  \<^item> \<open>wrapped_call v\<close>: calling a \<^verbatim>\<open>VSWrappedFunction\<close> with no arguments, which gives a
    new context (or raises);
  \<^item> \<open>new_VSContext v\<close>: the constructor \<^verbatim>\<open>_VSContext(v)\<close>, which gives a new context (or
    raises);
  \<^item> \<open>handlers name\<close>: \<^verbatim>\<open>getattr(instructions, name)\<close>, the handler of an opcode if the
    module \<^verbatim>\<open>vanstein.bytecode.instructions\<close> has one; a handler mutates the context it is
    given and may raise;
  \<^item> \<open>finish\<close>: the method \<^verbatim>\<open>_VSContext.finish\<close>.
\<close>

record 'v host =
  py_none :: 'v
  is_type :: "'v \<Rightarrow> bool"
  dunder_new :: "'v \<Rightarrow> 'v"
  isbuiltin :: "'v \<Rightarrow> bool"
  has_native_invoke :: "'v \<Rightarrow> bool"
  is_VSWrappedFunction :: "'v \<Rightarrow> bool"
  callable :: "'v \<Rightarrow> bool"
  call :: "'v \<Rightarrow> 'v list \<Rightarrow> exn + 'v"
  format :: "'v \<Rightarrow> string"
  wrapped_call :: "'v \<Rightarrow> exn + 'v VSContext"
  new_VSContext :: "'v \<Rightarrow> exn + 'v VSContext"
  handlers :: "string \<Rightarrow> ('v VSContext \<Rightarrow> Instruction \<Rightarrow> 'v VSContext \<times> exn option) option"
  finish :: "'v VSContext \<Rightarrow> 'v VSContext"

text \<open>What the engine does to a context, as far as the order of it matters: an assignment
  to the \<^verbatim>\<open>state\<close> of the context behind a reference (lines 68, 90, 105 and 125); the read
  of the callee from the stack of a context (line 93); and the call of the bridge
  \<^verbatim>\<open>__run_natively\<close> on a context (line 103). The last two come with the state in which the
  context is at that moment.\<close>

datatype event =
    StateSet ref VSCtxState
  | CalleeRead ref VSCtxState
  | NativeRun ref VSCtxState

text \<open>The engine object with the store of contexts: \<open>heap\<close> gives the context behind each
  reference and \<open>next_ref\<close> is the first reference not yet allocated. \<open>trace\<close> lists the
  events of the engine in the order in which its statements are executed; nothing in the
  engine reads it.\<close>

record 'v VansteinEngine =
  heap :: "ref \<Rightarrow> 'v VSContext"
  next_ref :: ref
  current_instruction :: "Instruction option"
  current_context :: "ref option"
  trace :: "event list"

definition record_event :: "event \<Rightarrow> 'v VansteinEngine \<Rightarrow> 'v VansteinEngine" where
  "record_event ev eng = eng\<lparr>trace := trace eng @ [ev]\<rparr>"

definition set_ctx :: "ref \<Rightarrow> 'v VSContext \<Rightarrow> 'v VansteinEngine \<Rightarrow> 'v VansteinEngine" where
  "set_ctx r c eng = eng\<lparr>heap := (heap eng)(r := c)\<rparr>"

section \<open>Methods of the context\<close>

text \<open>
  Modelled from the spec: \<^verbatim>\<open>_VSContext.next_instruction\<close> is not part of the sources at hand.
  Step 2 of the dispatch engine fetches \<^verbatim>\<open>instructions[pointer]\<close>, and the pointer is advanced
  past a call instruction before the frame is suspended; the engine itself never writes the
  pointer, so the fetch advances it. Reading past the end of the instruction list raises
  Python's \<^verbatim>\<open>IndexError\<close>.
\<close>

definition next_instruction :: "'v VSContext \<Rightarrow> 'v VSContext \<times> (exn + Instruction)" where
  "next_instruction c =
     (if pointer c < length (instructions c)
      then (c\<lparr>pointer := Suc (pointer c)\<rparr>, Inr (instructions c ! pointer c))
      else (c, Inl IndexError))"

text \<open>
  Modelled from the spec: \<^verbatim>\<open>_VSContext.push\<close> and \<^verbatim>\<open>_VSContext.pop\<close> are not part of the
  sources at hand. The operand stack is a last-in-first-out sequence; popping an empty
  sequence raises Python's \<^verbatim>\<open>IndexError\<close>. The engine's \<^verbatim>\<open>context.stack.pop()\<close> is the same
  operation.
\<close>

definition push :: "'v \<Rightarrow> 'v VSContext \<Rightarrow> 'v VSContext" where
  "push v c = c\<lparr>stack := v # stack c\<rparr>"

definition pop :: "'v VSContext \<Rightarrow> 'v VSContext \<times> (exn + 'v)" where
  "pop c = (case stack c of
              [] \<Rightarrow> (c, Inl IndexError)
            | v # s \<Rightarrow> (c\<lparr>stack := s\<rparr>, Inr v))"

text \<open>
  Modelled from the spec: \<^verbatim>\<open>_VSContext.fill_args\<close>, \<^verbatim>\<open>add_done_callback\<close> and
  \<^verbatim>\<open>add_exception_callback\<close> are not part of the sources at hand. \<open>pending_args\<close> is set from
  the arguments handed over, and callbacks are kept in registration order.
\<close>

definition fill_args :: "'v list \<Rightarrow> 'v VSContext \<Rightarrow> 'v VSContext" where
  "fill_args args c = c\<lparr>pending_args := args\<rparr>"

definition add_done_callback :: "callback \<Rightarrow> 'v VSContext \<Rightarrow> 'v VSContext" where
  "add_done_callback cb c = c\<lparr>done_callbacks := done_callbacks c @ [cb]\<rparr>"

definition add_exception_callback :: "callback \<Rightarrow> 'v VSContext \<Rightarrow> 'v VSContext" where
  "add_exception_callback cb c = c\<lparr>exception_callbacks := exception_callbacks c @ [cb]\<rparr>"

text \<open>
  Modelled from the spec: \<^verbatim>\<open>safe_raise\<close> (\<^verbatim>\<open>vanstein/bytecode/vs_exceptions.py\<close>) is not
  part of the sources at hand. Section 6 of the specification gives the fault channel: if
  the frame has registered exception callbacks the fault is routed to them (the frame
  makes its transition and the callbacks are notified, in registration order); otherwise
  the frame is marked ERRORED with the fault attached for external inspection.
\<close>

definition safe_raise :: "'v VSContext \<Rightarrow> exn \<Rightarrow> 'v VSContext" where
  "safe_raise c e =
     (if exception_callbacks c \<noteq> []
      then c\<lparr>state := ERRORED,
             notified := notified c @ map (\<lambda>cb. (cb, e)) (exception_callbacks c)\<rparr>
      else c\<lparr>state := ERRORED, fault := Some e\<rparr>)"

section \<open>The engine\<close>

text \<open>The loop \<^verbatim>\<open>for x in range(0, n): args.append(context.stack.pop())\<close>: \<open>n\<close> pops, each
  appended to the arguments collected so far; a pop from an empty stack raises.\<close>

fun pop_args :: "nat \<Rightarrow> 'v VSContext \<Rightarrow> 'v list \<Rightarrow> 'v VSContext \<times> (exn + 'v list)" where
  "pop_args 0 c args = (c, Inr args)"
| "pop_args (Suc k) c args =
     (case pop c of
        (c', Inl e) \<Rightarrow> (c', Inl e)
      | (c', Inr v) \<Rightarrow> pop_args k c' (args @ [v]))"

definition not_callable_message :: "string \<Rightarrow> string" where
  "not_callable_message s = [CHR 0x27] @ s @ [CHR 0x27] @ '' object is not callable''"

text \<open>
  \<^verbatim>\<open>VansteinEngine.__run_natively\<close> (lines 29 to 55). The result is the context as the
  method leaves it and either the exception that escapes the method or the value it
  returns; a bare \<^verbatim>\<open>return\<close> returns \<^verbatim>\<open>None\<close>. \<^verbatim>\<open>range(0, None)\<close> raises \<^verbatim>\<open>TypeError\<close>.
\<close>

definition run_natively :: "'v host \<Rightarrow> 'v VSContext \<Rightarrow> Instruction \<Rightarrow> 'v VSContext \<times> (exn + 'v)" where
  "run_natively h context instruction =
     (case arg instruction of
        None \<Rightarrow> (context, Inl (TypeError ''NoneType object cannot be interpreted as an integer''))
      | Some number_of_args \<Rightarrow>
          (case pop_args number_of_args context [] of
             (c1, Inl e) \<Rightarrow> (c1, Inl e)
           | (c1, Inr popped) \<Rightarrow>
               (let args = rev popped in
                case pop c1 of
                  (c2, Inl e) \<Rightarrow> (c2, Inl e)
                | (c2, Inr fn) \<Rightarrow>
                    if \<not> callable h fn
                    then (safe_raise c2 (TypeError (not_callable_message (format h fn))),
                          Inr (py_none h))
                    else (case call h fn args of
                            Inl e \<Rightarrow> (safe_raise c2 e, Inr (py_none h))
                          | Inr result \<Rightarrow> (c2, Inr result)))))"

text \<open>How one pass through the body of \<^verbatim>\<open>while True\<close> ends: the loop goes on, or
  \<^verbatim>\<open>run_context\<close> returns (\<^verbatim>\<open>None\<close> or a new context), or an exception escapes it.\<close>

datatype outcome = Continue | Return "ref option" | Raise exn

text \<open>
  The three statements of \<^verbatim>\<open>run_context\<close> that leave an event, each with the event it
  leaves: \<^verbatim>\<open>context.state = s\<close> for the context \<open>c\<close> behind \<open>r\<close>; the read
  \<^verbatim>\<open>context.stack[-(n + 1)]\<close>, which raises \<^verbatim>\<open>IndexError\<close> when the stack is shorter; and the
  call \<^verbatim>\<open>self.__run_natively(context, instruction)\<close>.
\<close>

definition set_state ::
  "ref \<Rightarrow> VSCtxState \<Rightarrow> 'v VSContext \<Rightarrow> 'v VansteinEngine \<Rightarrow> 'v VSContext \<times> 'v VansteinEngine" where
  "set_state r s c eng = (c\<lparr>state := s\<rparr>, record_event (StateSet r s) eng)"

definition read_callee ::
  "ref \<Rightarrow> 'v VSContext \<Rightarrow> nat \<Rightarrow> 'v VansteinEngine \<Rightarrow> (exn + 'v) \<times> 'v VansteinEngine" where
  "read_callee r c n eng =
     (if n < length (stack c) then Inr (stack c ! n) else Inl IndexError,
      record_event (CalleeRead r (state c)) eng)"

definition enter_bridge ::
  "'v host \<Rightarrow> ref \<Rightarrow> 'v VSContext \<Rightarrow> Instruction \<Rightarrow> 'v VansteinEngine \<Rightarrow>
     ('v VSContext \<times> (exn + 'v)) \<times> 'v VansteinEngine" where
  "enter_bridge h r c ins eng =
     (run_natively h c ins, record_event (NativeRun r (state c)) eng)"

text \<open>
  The branch for \<^verbatim>\<open>CALL_FUNCTION\<close> (lines 87 to 144), entered after the instruction has
  been fetched. \<^verbatim>\<open>context.stack[-(arg + 1)]\<close> is the entry \<open>arg\<close> places below the top and
  raises \<^verbatim>\<open>IndexError\<close> when the stack is shorter; \<^verbatim>\<open>None + 1\<close> raises \<^verbatim>\<open>TypeError\<close>. The
  substitution of \<^verbatim>\<open>__new__\<close> changes the local variable only, not the stack. A new context
  is stored at the first free reference. The assignments to a state (lines 90, 105 and
  125), the read of the callee (line 93) and the call of the bridge (line 103) leave their
  events in the trace where they stand in the source.
\<close>

definition call_function ::
  "'v host \<Rightarrow> ref \<Rightarrow> Instruction \<Rightarrow> 'v VansteinEngine \<Rightarrow> outcome \<times> 'v VansteinEngine" where
  "call_function h r next_ins eng =
     (case set_state r SUSPENDED (heap eng r) eng of
        (c1, engS) \<Rightarrow>
          (case arg next_ins of
             None \<Rightarrow>
               (Raise (TypeError ''unsupported operand type(s) for +''), set_ctx r c1 engS)
           | Some n \<Rightarrow>
               (case read_callee r c1 n engS of
                  (Inl e, engR) \<Rightarrow> (Raise e, set_ctx r c1 engR)
                | (Inr b0, engR) \<Rightarrow>
                    (let bottom_of_stack = (if is_type h b0 then dunder_new h b0 else b0) in
                     if isbuiltin h bottom_of_stack \<or> has_native_invoke h bottom_of_stack
                     then (case enter_bridge h r c1 next_ins engR of
                             ((c2, Inl e), engB) \<Rightarrow> (Raise e, set_ctx r c2 engB)
                           | ((c2, Inr result), engB) \<Rightarrow>
                               (case set_state r RUNNING c2 engB of
                                  (c3, engF) \<Rightarrow> (Continue, set_ctx r (push result c3) engF)))
                     else
                       (case (if is_VSWrappedFunction h bottom_of_stack
                              then wrapped_call h bottom_of_stack
                              else new_VSContext h bottom_of_stack) of
                          Inl e \<Rightarrow> (Raise e, set_ctx r c1 engR)
                        | Inr created \<Rightarrow>
                            (let nr = next_ref eng;
                                 eng1 = (set_ctx r c1 engR)\<lparr>next_ref := Suc nr\<rparr>;
                                 new_ctx = created\<lparr>prev_ctx := Some r\<rparr>;
                                 c2 = c1\<lparr>next_ctx := Some nr\<rparr>
                             in case set_state nr PENDING new_ctx eng1 of
                                  (new_ctx, eng1) \<Rightarrow>
                                    (let new_ctx = add_done_callback (on_result_cb r) new_ctx;
                                         new_ctx =
                                           add_exception_callback (on_exception_cb r) new_ctx
                                     in case pop_args n c2 [] of
                                          (c3, Inl e) \<Rightarrow>
                                            (Raise e, set_ctx r c3 (set_ctx nr new_ctx eng1))
                                        | (c3, Inr popped) \<Rightarrow>
                                            (let new_ctx = fill_args (rev popped) new_ctx in
                                             case pop c3 of
                                               (c4, Inl e) \<Rightarrow>
                                                 (Raise e,
                                                  set_ctx r c4 (set_ctx nr new_ctx eng1))
                                             | (c4, Inr fn) \<Rightarrow>
                                                 (Return (Some nr),
                                                  set_ctx r c4
                                                    (set_ctx nr new_ctx eng1))))))))))"

text \<open>
  One pass through the body of \<^verbatim>\<open>while True\<close> in \<^verbatim>\<open>run_context\<close> (lines 71 to 153) for the
  context behind \<open>r\<close>. The \<^verbatim>\<open>assert isinstance(...)\<close> of line 81 cannot fail here, since
  \<open>next_instruction\<close> returns an \<open>Instruction\<close> by its type. A handler gets the context and
  the instruction; what it leaves of the context is kept also when it raises.
\<close>

definition loop_body :: "'v host \<Rightarrow> ref \<Rightarrow> 'v VansteinEngine \<Rightarrow> outcome \<times> 'v VansteinEngine" where
  "loop_body h r eng =
     (let context = heap eng r in
      if state context = FINISHED then (Return None, set_ctx r (finish h context) eng)
      else if state context = ERRORED then (Return None, eng)
      else
        (case next_instruction context of
           (c1, Inl e) \<Rightarrow> (Raise e, set_ctx r c1 eng)
         | (c1, Inr next_ins) \<Rightarrow>
             (let eng1 = (set_ctx r c1 eng)\<lparr>current_instruction := Some next_ins\<rparr> in
              if opname next_ins = ''CALL_FUNCTION'' then call_function h r next_ins eng1
              else
                (case handlers h (opname next_ins) of
                   None \<Rightarrow> (Raise (NotImplementedError (opname next_ins)), eng1)
                 | Some i \<Rightarrow>
                     (case i c1 next_ins of
                        (c2, Some e) \<Rightarrow> (Raise e, set_ctx r c2 eng1)
                      | (c2, None) \<Rightarrow> (Continue, set_ctx r c2 eng1))))))"

text \<open>The loop \<^verbatim>\<open>while True\<close>. It need not end (a handler may move the pointer back), so
  the result is an option and \<open>None\<close> stands for a loop that runs forever.\<close>

partial_function (option) run_loop ::
  "'v host \<Rightarrow> ref \<Rightarrow> 'v VansteinEngine \<Rightarrow> (outcome \<times> 'v VansteinEngine) option" where
  "run_loop h r eng =
     (case loop_body h r eng of
        (Continue, eng') \<Rightarrow> run_loop h r eng'
      | (Return res, eng') \<Rightarrow> Some (Return res, eng')
      | (Raise e, eng') \<Rightarrow> Some (Raise e, eng'))"

text \<open>\<^verbatim>\<open>VansteinEngine.run_context\<close> (lines 58 to 153): the context is switched to RUNNING
  (line 68), recorded as the current one, and the loop starts.\<close>

definition run_context ::
  "'v host \<Rightarrow> ref \<Rightarrow> 'v VansteinEngine \<Rightarrow> (outcome \<times> 'v VansteinEngine) option" where
  "run_context h r eng =
     (case set_state r RUNNING (heap eng r) eng of
        (context, eng1) \<Rightarrow> run_loop h r ((set_ctx r context eng1)\<lparr>current_context := Some r\<rparr>))"

section \<open>Call sites\<close>

text \<open>The context behind \<open>r\<close> is about to dispatch the call instruction \<open>ins\<close>: it is
  neither FINISHED nor ERRORED, and its pointer is at \<open>ins\<close>, a \<^verbatim>\<open>CALL_FUNCTION\<close>.\<close>

definition at_call :: "ref \<Rightarrow> 'v VansteinEngine \<Rightarrow> Instruction \<Rightarrow> bool" where
  "at_call r eng ins \<longleftrightarrow>
     state (heap eng r) \<noteq> FINISHED \<and> state (heap eng r) \<noteq> ERRORED \<and>
     pointer (heap eng r) < length (instructions (heap eng r)) \<and>
     instructions (heap eng r) ! pointer (heap eng r) = ins \<and>
     opname ins = ''CALL_FUNCTION''"

text \<open>The engine after lines 80 to 82: the instruction is fetched and recorded as the
  current one.\<close>

definition after_fetch :: "ref \<Rightarrow> 'v VansteinEngine \<Rightarrow> 'v VansteinEngine" where
  "after_fetch r eng =
     (set_ctx r ((heap eng r)\<lparr>pointer := Suc (pointer (heap eng r))\<rparr>) eng)
       \<lparr>current_instruction := Some (instructions (heap eng r) ! pointer (heap eng r))\<rparr>"

text \<open>The engine's trace after lines 90 and 93: the frame was suspended, then the callee was
  read from the suspended frame. And after lines 103 and 105 of a native call: the bridge
  was run on the suspended frame, then the state was set to RUNNING.\<close>

definition call_read :: "ref \<Rightarrow> 'v VansteinEngine \<Rightarrow> 'v VansteinEngine" where
  "call_read r eng =
     record_event (CalleeRead r SUSPENDED) (record_event (StateSet r SUSPENDED) eng)"

definition native_done :: "ref \<Rightarrow> 'v VansteinEngine \<Rightarrow> 'v VansteinEngine" where
  "native_done r eng =
     record_event (StateSet r RUNNING) (record_event (NativeRun r SUSPENDED) (call_read r eng))"

text \<open>The value that lines 93 to 97 take as the callee: the entry at the callee's place of
  the stack, or its \<^verbatim>\<open>__new__\<close> if that entry is a type.\<close>

definition callee_value :: "'v host \<Rightarrow> 'v \<Rightarrow> 'v" where
  "callee_value h fn = (if is_type h fn then dunder_new h fn else fn)"

section \<open>A concrete host\<close>

text \<open>
  A small universe of Python values and a host over it, to run the engine on concrete
  frames: integers and plain objects (not callable), builtin functions, functions marked
  with \<^verbatim>\<open>native_invoke\<close>, wrapped and plain interpreted functions (with their code), and
  types (with their \<^verbatim>\<open>__new__\<close>). The builtin \<^verbatim>\<open>add\<close> adds two integers; every other
  builtin raises. The handler table knows \<^verbatim>\<open>POP_TOP\<close> and \<^verbatim>\<open>RETURN_VALUE\<close> only.
\<close>

datatype pyval =
    PyNone
  | PyInt int
  | PyObject
  | PyBuiltin string
  | PyNative string
  | PyWrapped "Instruction list"
  | PyFunction "Instruction list"
  | PyType pyval

definition fresh_context :: "Instruction list \<Rightarrow> pyval VSContext" where
  "fresh_context code =
     \<lparr>instructions = code, pointer = 0, stack = [], state = PENDING, prev_ctx = None,
      next_ctx = None, pending_args = [], done_callbacks = [], exception_callbacks = [],
      fault = None, notified = []\<rparr>"

fun sample_is_type :: "pyval \<Rightarrow> bool" where
  "sample_is_type (PyType n) = True"
| "sample_is_type v = False"

fun sample_new :: "pyval \<Rightarrow> pyval" where
  "sample_new (PyType n) = n"
| "sample_new v = PyNone"

fun sample_isbuiltin :: "pyval \<Rightarrow> bool" where
  "sample_isbuiltin (PyBuiltin name) = True"
| "sample_isbuiltin v = False"

fun sample_native :: "pyval \<Rightarrow> bool" where
  "sample_native (PyNative name) = True"
| "sample_native v = False"

fun sample_wrapped :: "pyval \<Rightarrow> bool" where
  "sample_wrapped (PyWrapped code) = True"
| "sample_wrapped v = False"

fun sample_callable :: "pyval \<Rightarrow> bool" where
  "sample_callable PyNone = False"
| "sample_callable (PyInt i) = False"
| "sample_callable PyObject = False"
| "sample_callable v = True"

definition sample_call :: "pyval \<Rightarrow> pyval list \<Rightarrow> exn + pyval" where
  "sample_call fn args =
     (case fn of
        PyBuiltin name \<Rightarrow>
          (case args of
             [PyInt a, PyInt b] \<Rightarrow>
               if name = ''add'' then Inr (PyInt (a + b)) else Inl (HostError name)
           | _ \<Rightarrow> Inl (HostError name))
      | PyType n \<Rightarrow> Inr PyObject
      | _ \<Rightarrow> Inl (TypeError ''bad call''))"

fun sample_format :: "pyval \<Rightarrow> string" where
  "sample_format PyNone = ''None''"
| "sample_format (PyInt i) = ''int''"
| "sample_format v = ''object''"

fun sample_wrapped_call :: "pyval \<Rightarrow> exn + pyval VSContext" where
  "sample_wrapped_call (PyWrapped code) = Inr (fresh_context code)"
| "sample_wrapped_call v = Inl (TypeError ''not wrapped'')"

fun sample_new_VSContext :: "pyval \<Rightarrow> exn + pyval VSContext" where
  "sample_new_VSContext (PyFunction code) = Inr (fresh_context code)"
| "sample_new_VSContext v = Inl (HostError ''AttributeError'')"

definition sample_handlers ::
  "string \<Rightarrow> (pyval VSContext \<Rightarrow> Instruction \<Rightarrow> pyval VSContext \<times> exn option) option" where
  "sample_handlers name =
     (if name = ''POP_TOP''
      then Some (\<lambda>c i. case pop c of (c', Inl e) \<Rightarrow> (c', Some e) | (c', Inr v) \<Rightarrow> (c', None))
      else if name = ''RETURN_VALUE'' then Some (\<lambda>c i. (c\<lparr>state := FINISHED\<rparr>, None))
      else None)"

definition sample_host :: "pyval host" where
  "sample_host =
     \<lparr>py_none = PyNone, is_type = sample_is_type, dunder_new = sample_new,
      isbuiltin = sample_isbuiltin, has_native_invoke = sample_native,
      is_VSWrappedFunction = sample_wrapped, callable = sample_callable, call = sample_call,
      format = sample_format, wrapped_call = sample_wrapped_call,
      new_VSContext = sample_new_VSContext, handlers = sample_handlers, finish = (\<lambda>c. c)\<rparr>"

definition CALL_FUNCTION :: "nat \<Rightarrow> Instruction" where
  "CALL_FUNCTION n = \<lparr>opname = ''CALL_FUNCTION'', arg = Some n\<rparr>"

text \<open>A frame with the given code, operand stack (top first) and state, and an engine whose
  store holds that frame at reference 0 and nothing else.\<close>

definition frame :: "Instruction list \<Rightarrow> pyval list \<Rightarrow> VSCtxState \<Rightarrow> pyval VSContext" where
  "frame code st s = (fresh_context code)\<lparr>stack := st, state := s\<rparr>"

definition engine_with :: "pyval VSContext \<Rightarrow> pyval VansteinEngine" where
  "engine_with c =
     \<lparr>heap = (\<lambda>r. fresh_context [])(0 := c), next_ref = 1, current_instruction = None,
      current_context = None, trace = []\<rparr>"

section \<open>Auxiliary facts\<close>

lemma pop_args_enough:
  "k \<le> length (stack c) \<Longrightarrow>
   pop_args k c args = (c\<lparr>stack := drop k (stack c)\<rparr>, Inr (args @ take k (stack c)))"
proof (induction k arbitrary: c args)
  case 0
  then show ?case by simp
next
  case (Suc k)
  then obtain v s where vs: "stack c = v # s" by (cases "stack c") auto
  with Suc.prems have "k \<le> length (stack (c\<lparr>stack := s\<rparr>))" by simp
  from Suc.IH[OF this] vs show ?case by (simp add: pop_def)
qed

lemma run_loop_Continue:
  "loop_body h r eng = (Continue, eng') \<Longrightarrow> run_loop h r eng = run_loop h r eng'"
  by (subst run_loop.simps) simp

lemma run_loop_Return:
  "loop_body h r eng = (Return res, eng') \<Longrightarrow> run_loop h r eng = Some (Return res, eng')"
  by (subst run_loop.simps) simp

lemma run_loop_Raise:
  "loop_body h r eng = (Raise e, eng') \<Longrightarrow> run_loop h r eng = Some (Raise e, eng')"
  by (subst run_loop.simps) simp

lemma loop_body_at_call:
  "at_call r eng ins \<Longrightarrow> loop_body h r eng = call_function h r ins (after_fetch r eng)"
  by (simp add: at_call_def loop_body_def next_instruction_def after_fetch_def Let_def)

lemma run_natively_on_stack:
  assumes "arg ins = Some (length args)" and "stack c = rev args @ fn # rest"
  shows "run_natively h c ins =
           (if \<not> callable h fn
            then (safe_raise (c\<lparr>stack := rest\<rparr>) (TypeError (not_callable_message (format h fn))),
                  Inr (py_none h))
            else (case call h fn args of
                    Inl e \<Rightarrow> (safe_raise (c\<lparr>stack := rest\<rparr>) e, Inr (py_none h))
                  | Inr result \<Rightarrow> (c\<lparr>stack := rest\<rparr>, Inr result)))"
proof -
  have "length args \<le> length (stack c)" using assms(2) by simp
  from pop_args_enough[OF this, of "[]"] assms(2)
  have "pop_args (length args) c [] = (c\<lparr>stack := fn # rest\<rparr>, Inr (rev args))"
    by simp
  then show ?thesis using assms(1)
    by (simp add: run_natively_def pop_def Let_def)
qed


lemma nth_callee: "(rev args @ fn # rest) ! length args = fn"
  by (metis length_rev nth_append_length)

lemma run_natively_frame:
  assumes "arg ins = Some (length args)" and "stack c = rev args @ fn # rest"
  shows "\<exists>c2 result. run_natively h c ins = (c2, Inr result) \<and> stack c2 = rest \<and>
           prev_ctx c2 = prev_ctx c \<and> next_ctx c2 = next_ctx c \<and>
           pointer c2 = pointer c \<and> instructions c2 = instructions c"
  by (simp add: run_natively_on_stack[OF assms] safe_raise_def split: sum.split)

lemma call_function_native:
  assumes "arg ins = Some (length args)" and "stack (heap eng r) = rev args @ fn # rest"
    and "isbuiltin h (callee_value h fn) \<or> has_native_invoke h (callee_value h fn)"
    and "run_natively h ((heap eng r)\<lparr>state := SUSPENDED\<rparr>) ins = (c2, Inr result)"
  shows "call_function h r ins eng =
           (Continue, set_ctx r (push result (c2\<lparr>state := RUNNING\<rparr>))
                        (native_done r eng))"
  using assms by (simp add: call_function_def set_state_def read_callee_def enter_bridge_def Let_def nth_callee callee_value_def call_read_def native_done_def)

lemma call_function_interpreted:
  assumes "arg ins = Some (length args)" and "stack (heap eng r) = rev args @ fn # rest"
    and "\<not> isbuiltin h (callee_value h fn)" and "\<not> has_native_invoke h (callee_value h fn)"
    and "(if is_VSWrappedFunction h (callee_value h fn)
          then wrapped_call h (callee_value h fn)
          else new_VSContext h (callee_value h fn)) = Inr created"
  shows "call_function h r ins eng =
           (Return (Some (next_ref eng)),
            set_ctx r ((heap eng r)\<lparr>state := SUSPENDED, next_ctx := Some (next_ref eng),
                                    stack := rest\<rparr>)
              (set_ctx (next_ref eng)
                 (created\<lparr>prev_ctx := Some r, state := PENDING,
                          done_callbacks := done_callbacks created @ [on_result_cb r],
                          exception_callbacks := exception_callbacks created @ [on_exception_cb r],
                          pending_args := args\<rparr>)
                 (record_event (StateSet (next_ref eng) PENDING)
                    ((set_ctx r ((heap eng r)\<lparr>state := SUSPENDED\<rparr>) (call_read r eng))
                       \<lparr>next_ref := Suc (next_ref eng)\<rparr>))))"
proof -
  let ?c2 = "(heap eng r)\<lparr>state := SUSPENDED, next_ctx := Some (next_ref eng)\<rparr>"
  have "length args \<le> length (stack ?c2)" using assms(2) by simp
  from pop_args_enough[OF this, of "[]"] assms(2)
  have pa: "pop_args (length args) ?c2 [] = (?c2\<lparr>stack := fn # rest\<rparr>, Inr (rev args))"
    by simp
  show ?thesis
  proof (cases "is_type h fn")
    case True
    with assms(3-5) have "\<not> isbuiltin h (dunder_new h fn)" "\<not> has_native_invoke h (dunder_new h fn)"
      "(if is_VSWrappedFunction h (dunder_new h fn) then wrapped_call h (dunder_new h fn)
        else new_VSContext h (dunder_new h fn)) = Inr created"
      by (simp_all add: callee_value_def cong: if_cong)
    with True assms(1,2) pa show ?thesis
      unfolding call_function_def set_state_def read_callee_def enter_bridge_def Let_def
      by (simp add: nth_callee call_read_def native_done_def pop_def fill_args_def add_done_callback_def
          add_exception_callback_def split: if_splits)
  next
    case False
    with assms(3-5) have "\<not> isbuiltin h fn" "\<not> has_native_invoke h fn"
      "(if is_VSWrappedFunction h fn then wrapped_call h fn else new_VSContext h fn) = Inr created"
      by (simp_all add: callee_value_def cong: if_cong)
    with False assms(1,2) pa show ?thesis
      unfolding call_function_def set_state_def read_callee_def enter_bridge_def Let_def
      by (simp add: nth_callee call_read_def native_done_def pop_def fill_args_def add_done_callback_def
          add_exception_callback_def split: if_splits)
  qed
qed


lemma heap_after_fetch:
  "heap (after_fetch r eng) r = (heap eng r)\<lparr>pointer := Suc (pointer (heap eng r))\<rparr>"
  "q \<noteq> r \<Longrightarrow> heap (after_fetch r eng) q = heap eng q"
  "next_ref (after_fetch r eng) = next_ref eng"
  "trace (after_fetch r eng) = trace eng"
  by (simp_all add: after_fetch_def set_ctx_def record_event_def call_read_def native_done_def)

lemmas sample_defs = engine_with_def frame_def fresh_context_def CALL_FUNCTION_def
  sample_host_def callee_value_def

section \<open>Calls to interpreted callables\<close>

text \<open>
  Claim C4. A \<^verbatim>\<open>CALL_FUNCTION\<close> with argument count \<open>length args\<close> finds the callee \<open>fn\<close>
  below the arguments, which were pushed in call order (so the stack is
  \<open>rev args @ fn # rest\<close>, top first). If the callee is not native and a context can be
  made for it, the loop returns the new context, stored at the first free reference. The
  caller has lost exactly the arguments and the callee from its stack; the store has
  exactly one more context and no context other than the caller and the new one has
  changed; the new context has the arguments, in call order, as its pending arguments, the
  caller as \<^verbatim>\<open>prev_ctx\<close> and state PENDING; the caller has the new context as \<^verbatim>\<open>next_ctx\<close>
  and state SUSPENDED.
\<close>

theorem interpreted_call_switches_context:
  assumes "at_call r eng ins" and "arg ins = Some (length args)"
    and "stack (heap eng r) = rev args @ fn # rest"
    and "\<not> isbuiltin h (callee_value h fn)" and "\<not> has_native_invoke h (callee_value h fn)"
    and "(if is_VSWrappedFunction h (callee_value h fn)
          then wrapped_call h (callee_value h fn)
          else new_VSContext h (callee_value h fn)) = Inr created"
    and "r < next_ref eng"
  shows "\<exists>eng'. run_loop h r eng = Some (Return (Some (next_ref eng)), eng') \<and>
           stack (heap eng' r) = rest \<and>
           next_ref eng' = Suc (next_ref eng) \<and>
           (\<forall>q. q \<noteq> r \<and> q \<noteq> next_ref eng \<longrightarrow> heap eng' q = heap eng q) \<and>
           instructions (heap eng' (next_ref eng)) = instructions created \<and>
           pending_args (heap eng' (next_ref eng)) = args \<and>
           prev_ctx (heap eng' (next_ref eng)) = Some r \<and>
           next_ctx (heap eng' r) = Some (next_ref eng) \<and>
           state (heap eng' (next_ref eng)) = PENDING \<and>
           state (heap eng' r) = SUSPENDED"
proof -
  let ?e = "after_fetch r eng"
  have st: "stack (heap ?e r) = rev args @ fn # rest"
    using assms(3) by (simp add: heap_after_fetch)
  have ne: "r \<noteq> next_ref eng" using assms(7) by simp
  note cf = call_function_interpreted[OF assms(2) st assms(4,5,6)]
  have lb: "loop_body h r eng = call_function h r ins ?e"
    by (rule loop_body_at_call[OF assms(1)])
  from lb cf have "run_loop h r eng = Some (call_function h r ins ?e)"
    by (simp add: run_loop_Return)
  with cf ne show ?thesis
    by (simp add: heap_after_fetch set_ctx_def record_event_def call_read_def native_done_def)
qed

theorem interpreted_call_switches_context_witness:
  "\<exists>eng'. run_loop sample_host 0
            (engine_with (frame [CALL_FUNCTION 2] [PyInt 3, PyInt 2, PyWrapped []] RUNNING)) =
            Some (Return (Some 1), eng') \<and>
          stack (heap eng' 0) = [] \<and> next_ref eng' = 2 \<and>
          pending_args (heap eng' 1) = [PyInt 2, PyInt 3] \<and>
          prev_ctx (heap eng' 1) = Some 0 \<and> next_ctx (heap eng' 0) = Some 1 \<and>
          state (heap eng' 1) = PENDING \<and> state (heap eng' 0) = SUSPENDED"
proof -
  let ?E = "engine_with (frame [CALL_FUNCTION 2] [PyInt 3, PyInt 2, PyWrapped []] RUNNING)"
  have h1: "at_call 0 ?E (CALL_FUNCTION 2)"
    by (simp add: at_call_def sample_defs)
  have h2: "arg (CALL_FUNCTION 2) = Some (length [PyInt 2, PyInt 3])"
    by (simp add: CALL_FUNCTION_def)
  have h3: "stack (heap ?E 0) = rev [PyInt 2, PyInt 3] @ PyWrapped [] # []"
    by (simp add: sample_defs)
  have h4: "\<not> isbuiltin sample_host (callee_value sample_host (PyWrapped []))"
    by (simp add: sample_defs)
  have h5: "\<not> has_native_invoke sample_host (callee_value sample_host (PyWrapped []))"
    by (simp add: sample_defs)
  have h6: "(if is_VSWrappedFunction sample_host (callee_value sample_host (PyWrapped []))
             then wrapped_call sample_host (callee_value sample_host (PyWrapped []))
             else new_VSContext sample_host (callee_value sample_host (PyWrapped []))) =
            Inr (fresh_context [])"
    by (simp add: sample_defs)
  have h7: "0 < next_ref ?E" by (simp add: engine_with_def)
  have n: "next_ref ?E = 1" by (simp add: engine_with_def)
  from interpreted_call_switches_context[OF h1 h2 h3 h4 h5 h6 h7]
  show ?thesis unfolding n by auto
qed

lemma loop_body_native:
  assumes "at_call r eng ins" and "arg ins = Some (length args)"
    and "stack (heap eng r) = rev args @ fn # rest"
    and "isbuiltin h (callee_value h fn) \<or> has_native_invoke h (callee_value h fn)"
  shows "\<exists>c2 result.
           run_natively h ((heap eng r)\<lparr>pointer := Suc (pointer (heap eng r)),
                                       state := SUSPENDED\<rparr>) ins = (c2, Inr result) \<and>
           stack c2 = rest \<and> prev_ctx c2 = prev_ctx (heap eng r) \<and>
           next_ctx c2 = next_ctx (heap eng r) \<and> pointer c2 = Suc (pointer (heap eng r)) \<and>
           instructions c2 = instructions (heap eng r) \<and>
           loop_body h r eng =
             (Continue, set_ctx r (push result (c2\<lparr>state := RUNNING\<rparr>))
          (native_done r (after_fetch r eng)))"
proof -
  let ?c = "(heap eng r)\<lparr>pointer := Suc (pointer (heap eng r)), state := SUSPENDED\<rparr>"
  have st: "stack ?c = rev args @ fn # rest" using assms(3) by simp
  from run_natively_frame[OF assms(2) st, of h]
  obtain c2 result where rn: "run_natively h ?c ins = (c2, Inr result)"
    and fr: "stack c2 = rest" "prev_ctx c2 = prev_ctx ?c" "next_ctx c2 = next_ctx ?c"
      "pointer c2 = pointer ?c" "instructions c2 = instructions ?c"
    by blast
  have st': "stack (heap (after_fetch r eng) r) = rev args @ fn # rest"
    using assms(3) by (simp add: heap_after_fetch)
  have rn': "run_natively h ((heap (after_fetch r eng) r)\<lparr>state := SUSPENDED\<rparr>) ins = (c2, Inr result)"
    using rn by (simp add: heap_after_fetch)
  have "loop_body h r eng = call_function h r ins (after_fetch r eng)"
    by (rule loop_body_at_call[OF assms(1)])
  also have "\<dots> = (Continue, set_ctx r (push result (c2\<lparr>state := RUNNING\<rparr>))
          (native_done r (after_fetch r eng)))"
    by (rule call_function_native[OF assms(2) st' assms(4) rn'])
  finally show ?thesis using rn fr by simp
qed

section \<open>Calls to native callables\<close>

text \<open>
  Claim C7. A \<^verbatim>\<open>CALL_FUNCTION\<close> whose callee (after the substitution of \<^verbatim>\<open>__new__\<close> for a
  type) is a builtin or carries \<^verbatim>\<open>_native_invoke\<close> ends the pass through the loop body
  with \<^verbatim>\<open>continue\<close>: nothing is returned to the driver, and the loop goes on from an
  engine in which the frame has the same \<^verbatim>\<open>prev_ctx\<close> and \<^verbatim>\<open>next_ctx\<close>, the same
  instructions, the pointer on the instruction after the call and state RUNNING; no
  context was allocated and no other context has changed.
\<close>

theorem native_call_continues_in_frame:
  assumes "at_call r eng ins" and "arg ins = Some (length args)"
    and "stack (heap eng r) = rev args @ fn # rest"
    and "isbuiltin h (callee_value h fn) \<or> has_native_invoke h (callee_value h fn)"
  shows "\<exists>eng'. loop_body h r eng = (Continue, eng') \<and>
           run_loop h r eng = run_loop h r eng' \<and>
           prev_ctx (heap eng' r) = prev_ctx (heap eng r) \<and>
           next_ctx (heap eng' r) = next_ctx (heap eng r) \<and>
           next_ref eng' = next_ref eng \<and>
           (\<forall>q. q \<noteq> r \<longrightarrow> heap eng' q = heap eng q) \<and>
           state (heap eng' r) = RUNNING \<and>
           instructions (heap eng' r) = instructions (heap eng r) \<and>
           pointer (heap eng' r) = Suc (pointer (heap eng r))"
proof -
  from loop_body_native[OF assms, of ] obtain c2 result where
    fr: "prev_ctx c2 = prev_ctx (heap eng r)" "next_ctx c2 = next_ctx (heap eng r)"
      "pointer c2 = Suc (pointer (heap eng r))" "instructions c2 = instructions (heap eng r)"
    and lb: "loop_body h r eng =
      (Continue, set_ctx r (push result (c2\<lparr>state := RUNNING\<rparr>))
          (native_done r (after_fetch r eng)))"
    by blast
  from lb have "run_loop h r eng =
      run_loop h r (set_ctx r (push result (c2\<lparr>state := RUNNING\<rparr>))
          (native_done r (after_fetch r eng)))"
    by (rule run_loop_Continue)
  with lb fr show ?thesis
    by (simp add: set_ctx_def record_event_def call_read_def native_done_def push_def heap_after_fetch)
qed

theorem native_call_continues_in_frame_witness:
  "\<exists>eng'. loop_body sample_host 0
            (engine_with (frame [CALL_FUNCTION 2] [PyInt 3, PyInt 2, PyBuiltin ''add''] RUNNING)) =
            (Continue, eng') \<and>
          run_loop sample_host 0
            (engine_with (frame [CALL_FUNCTION 2] [PyInt 3, PyInt 2, PyBuiltin ''add''] RUNNING)) =
            run_loop sample_host 0 eng' \<and>
          prev_ctx (heap eng' 0) = None \<and> next_ctx (heap eng' 0) = None \<and>
          next_ref eng' = 1 \<and> state (heap eng' 0) = RUNNING \<and> pointer (heap eng' 0) = 1"
proof -
  let ?E = "engine_with (frame [CALL_FUNCTION 2] [PyInt 3, PyInt 2, PyBuiltin ''add''] RUNNING)"
  have h1: "at_call 0 ?E (CALL_FUNCTION 2)"
    by (simp add: at_call_def sample_defs)
  have h2: "arg (CALL_FUNCTION 2) = Some (length [PyInt 2, PyInt 3])"
    by (simp add: CALL_FUNCTION_def)
  have h3: "stack (heap ?E 0) = rev [PyInt 2, PyInt 3] @ PyBuiltin ''add'' # []"
    by (simp add: sample_defs)
  have h4: "isbuiltin sample_host (callee_value sample_host (PyBuiltin ''add'')) \<or>
            has_native_invoke sample_host (callee_value sample_host (PyBuiltin ''add''))"
    by (simp add: sample_defs)
  have v: "prev_ctx (heap ?E 0) = None" "next_ctx (heap ?E 0) = None" "next_ref ?E = 1"
    "pointer (heap ?E 0) = 0"
    by (simp_all add: sample_defs)
  from native_call_continues_in_frame[OF h1 h2 h3 h4]
  show ?thesis unfolding v by auto
qed

lemma call_function_creation_fails:
  assumes "arg ins = Some (length args)" and "stack (heap eng r) = rev args @ fn # rest"
    and "\<not> isbuiltin h (callee_value h fn)" and "\<not> has_native_invoke h (callee_value h fn)"
    and "(if is_VSWrappedFunction h (callee_value h fn)
          then wrapped_call h (callee_value h fn)
          else new_VSContext h (callee_value h fn)) = Inl e"
  shows "call_function h r ins eng =
           (Raise e, set_ctx r ((heap eng r)\<lparr>state := SUSPENDED\<rparr>) (call_read r eng))"
proof (cases "is_type h fn")
  case True
  with assms(3-5) have "\<not> isbuiltin h (dunder_new h fn)" "\<not> has_native_invoke h (dunder_new h fn)"
    "(if is_VSWrappedFunction h (dunder_new h fn) then wrapped_call h (dunder_new h fn)
      else new_VSContext h (dunder_new h fn)) = Inl e"
    by (simp_all add: callee_value_def cong: if_cong)
  with True assms(1,2) show ?thesis
    unfolding call_function_def set_state_def read_callee_def enter_bridge_def Let_def
    by (simp add: nth_callee call_read_def native_done_def split: if_splits)
next
  case False
  with assms(3-5) have "\<not> isbuiltin h fn" "\<not> has_native_invoke h fn"
    "(if is_VSWrappedFunction h fn then wrapped_call h fn else new_VSContext h fn) = Inl e"
    by (simp_all add: callee_value_def cong: if_cong)
  with False assms(1,2) show ?thesis
    unfolding call_function_def set_state_def read_callee_def enter_bridge_def Let_def
    by (simp add: nth_callee call_read_def native_done_def split: if_splits)
qed


section \<open>The pointer of a suspended frame\<close>

text \<open>
  Claim C8. The instruction is fetched (line 80), which moves the pointer past it, before
  the branch for \<^verbatim>\<open>CALL_FUNCTION\<close> is entered and suspends the frame (line 90): the branch
  starts from an engine in which the pointer of the frame is already past the call and its
  state is still what it was. When the call switches to a new context, the frame is left
  SUSPENDED with its pointer on the instruction after the call and its instructions
  unchanged.
\<close>

theorem pointer_is_past_call_when_suspended:
  assumes "at_call r eng ins" and "arg ins = Some (length args)"
    and "stack (heap eng r) = rev args @ fn # rest"
    and "\<not> isbuiltin h (callee_value h fn)" and "\<not> has_native_invoke h (callee_value h fn)"
    and "(if is_VSWrappedFunction h (callee_value h fn)
          then wrapped_call h (callee_value h fn)
          else new_VSContext h (callee_value h fn)) = Inr created"
  shows "loop_body h r eng = call_function h r ins (after_fetch r eng) \<and>
         pointer (heap (after_fetch r eng) r) = Suc (pointer (heap eng r)) \<and>
         state (heap (after_fetch r eng) r) = state (heap eng r) \<and>
         (\<exists>eng'. loop_body h r eng = (Return (Some (next_ref eng)), eng') \<and>
                 state (heap eng' r) = SUSPENDED \<and>
                 pointer (heap eng' r) = Suc (pointer (heap eng r)) \<and>
                 instructions (heap eng' r) = instructions (heap eng r))"
proof -
  let ?e = "after_fetch r eng"
  have st: "stack (heap ?e r) = rev args @ fn # rest"
    using assms(3) by (simp add: heap_after_fetch)
  note cf = call_function_interpreted[OF assms(2) st assms(4,5,6)]
  have lb: "loop_body h r eng = call_function h r ins ?e"
    by (rule loop_body_at_call[OF assms(1)])
  from lb cf show ?thesis
    by (simp add: heap_after_fetch set_ctx_def record_event_def call_read_def native_done_def)
qed

theorem pointer_is_past_call_when_suspended_witness:
  "\<exists>eng'. loop_body sample_host 0
            (engine_with (frame [CALL_FUNCTION 1, CALL_FUNCTION 0]
                            [PyInt 7, PyFunction []] RUNNING)) =
            (Return (Some 1), eng') \<and>
          state (heap eng' 0) = SUSPENDED \<and> pointer (heap eng' 0) = 1 \<and>
          instructions (heap eng' 0) = [CALL_FUNCTION 1, CALL_FUNCTION 0]"
proof -
  let ?E = "engine_with (frame [CALL_FUNCTION 1, CALL_FUNCTION 0] [PyInt 7, PyFunction []] RUNNING)"
  have h1: "at_call 0 ?E (CALL_FUNCTION 1)"
    by (simp add: at_call_def sample_defs)
  have h2: "arg (CALL_FUNCTION 1) = Some (length [PyInt 7])"
    by (simp add: CALL_FUNCTION_def)
  have h3: "stack (heap ?E 0) = rev [PyInt 7] @ PyFunction [] # []"
    by (simp add: sample_defs)
  have h4: "\<not> isbuiltin sample_host (callee_value sample_host (PyFunction []))"
    by (simp add: sample_defs)
  have h5: "\<not> has_native_invoke sample_host (callee_value sample_host (PyFunction []))"
    by (simp add: sample_defs)
  have h6: "(if is_VSWrappedFunction sample_host (callee_value sample_host (PyFunction []))
             then wrapped_call sample_host (callee_value sample_host (PyFunction []))
             else new_VSContext sample_host (callee_value sample_host (PyFunction []))) =
            Inr (fresh_context [])"
    by (simp add: sample_defs)
  have v: "next_ref ?E = 1" "pointer (heap ?E 0) = 0"
    "instructions (heap ?E 0) = [CALL_FUNCTION 1, CALL_FUNCTION 0]"
    by (simp_all add: sample_defs)
  from pointer_is_past_call_when_suspended[OF h1 h2 h3 h4 h5 h6]
  have "\<exists>eng'. loop_body sample_host 0 ?E = (Return (Some (next_ref ?E)), eng') \<and>
          state (heap eng' 0) = SUSPENDED \<and>
          pointer (heap eng' 0) = Suc (pointer (heap ?E 0)) \<and>
          instructions (heap eng' 0) = instructions (heap ?E 0)"
    by (elim conjE)
  then show ?thesis unfolding v by simp
qed

text \<open>With a type at the callee's place, the pass through the loop body ends as it does
  with the type's \<^verbatim>\<open>__new__\<close> at that place.\<close>

lemma type_callee_same_as_new:
  assumes "at_call r eng ins" and "arg ins = Some (length args)"
    and "stack (heap eng r) = rev args @ fn # rest"
    and "is_type h fn" and "\<not> is_type h (dunder_new h fn)"
  shows "fst (loop_body h r eng) =
           fst (loop_body h r
                  (set_ctx r ((heap eng r)\<lparr>stack := rev args @ dunder_new h fn # rest\<rparr>) eng)) \<and>
         (isbuiltin h (dunder_new h fn) \<or> has_native_invoke h (dunder_new h fn) \<longrightarrow>
            fst (loop_body h r eng) = Continue) \<and>
         (\<not> isbuiltin h (dunder_new h fn) \<and> \<not> has_native_invoke h (dunder_new h fn) \<and>
          (if is_VSWrappedFunction h (dunder_new h fn) then wrapped_call h (dunder_new h fn)
           else new_VSContext h (dunder_new h fn)) = Inr created \<longrightarrow>
            loop_body h r eng =
              loop_body h r
                (set_ctx r ((heap eng r)\<lparr>stack := rev args @ dunder_new h fn # rest\<rparr>) eng))"
proof -
  let ?n = "dunder_new h fn"
  let ?engN = "set_ctx r ((heap eng r)\<lparr>stack := rev args @ ?n # rest\<rparr>) eng"
  have cv: "callee_value h fn = ?n" "callee_value h ?n = ?n"
    using assms(4,5) by (simp_all add: callee_value_def)
  have acN: "at_call r ?engN ins"
    using assms(1) by (simp add: at_call_def set_ctx_def record_event_def call_read_def native_done_def)
  have stN: "stack (heap ?engN r) = rev args @ ?n # rest"
    by (simp add: set_ctx_def record_event_def call_read_def native_done_def)
  have st: "stack (heap (after_fetch r eng) r) = rev args @ fn # rest"
    using assms(3) by (simp add: heap_after_fetch)
  have stN': "stack (heap (after_fetch r ?engN) r) = rev args @ ?n # rest"
    by (simp add: heap_after_fetch set_ctx_def record_event_def call_read_def native_done_def)
  have lb: "loop_body h r eng = call_function h r ins (after_fetch r eng)"
    by (rule loop_body_at_call[OF assms(1)])
  have lbN: "loop_body h r ?engN = call_function h r ins (after_fetch r ?engN)"
    by (rule loop_body_at_call[OF acN])
  have native: "fst (loop_body h r eng) = Continue \<and> fst (loop_body h r ?engN) = Continue"
    if nat: "isbuiltin h ?n \<or> has_native_invoke h ?n"
  proof -
    from nat have n1: "isbuiltin h (callee_value h fn) \<or> has_native_invoke h (callee_value h fn)"
      and n2: "isbuiltin h (callee_value h ?n) \<or> has_native_invoke h (callee_value h ?n)"
      by (simp_all add: cv)
    from loop_body_native[OF assms(1,2,3) n1] loop_body_native[OF acN assms(2) stN n2]
    show ?thesis by auto
  qed
  have created_eq: "loop_body h r eng = loop_body h r ?engN"
    if nb: "\<not> isbuiltin h ?n" and nn: "\<not> has_native_invoke h ?n"
      and cr: "(if is_VSWrappedFunction h ?n then wrapped_call h ?n else new_VSContext h ?n) = Inr c"
    for c
  proof -
    have a1: "\<not> isbuiltin h (callee_value h fn)" "\<not> has_native_invoke h (callee_value h fn)"
      "(if is_VSWrappedFunction h (callee_value h fn) then wrapped_call h (callee_value h fn)
        else new_VSContext h (callee_value h fn)) = Inr c"
      unfolding cv by (fact nb nn cr)+
    have a2: "\<not> isbuiltin h (callee_value h ?n)" "\<not> has_native_invoke h (callee_value h ?n)"
      "(if is_VSWrappedFunction h (callee_value h ?n) then wrapped_call h (callee_value h ?n)
        else new_VSContext h (callee_value h ?n)) = Inr c"
      unfolding cv by (fact nb nn cr)+
    from call_function_interpreted[OF assms(2) st a1] call_function_interpreted[OF assms(2) stN' a2]
    show ?thesis unfolding lb lbN
      by (simp add: heap_after_fetch after_fetch_def set_ctx_def record_event_def call_read_def native_done_def)
  qed
  have failed_eq: "fst (loop_body h r eng) = fst (loop_body h r ?engN)"
    if nb: "\<not> isbuiltin h ?n" and nn: "\<not> has_native_invoke h ?n"
      and cr: "(if is_VSWrappedFunction h ?n then wrapped_call h ?n else new_VSContext h ?n) = Inl e"
    for e
  proof -
    have a1: "\<not> isbuiltin h (callee_value h fn)" "\<not> has_native_invoke h (callee_value h fn)"
      "(if is_VSWrappedFunction h (callee_value h fn) then wrapped_call h (callee_value h fn)
        else new_VSContext h (callee_value h fn)) = Inl e"
      unfolding cv by (fact nb nn cr)+
    have a2: "\<not> isbuiltin h (callee_value h ?n)" "\<not> has_native_invoke h (callee_value h ?n)"
      "(if is_VSWrappedFunction h (callee_value h ?n) then wrapped_call h (callee_value h ?n)
        else new_VSContext h (callee_value h ?n)) = Inl e"
      unfolding cv by (fact nb nn cr)+
    from call_function_creation_fails[OF assms(2) st a1]
      call_function_creation_fails[OF assms(2) stN' a2]
    show ?thesis unfolding lb lbN by simp
  qed
  have first: "fst (loop_body h r eng) = fst (loop_body h r ?engN)"
  proof (cases "isbuiltin h ?n \<or> has_native_invoke h ?n")
    case True
    from native[OF True] show ?thesis by simp
  next
    case False
    then have nb: "\<not> isbuiltin h ?n" and nn: "\<not> has_native_invoke h ?n" by simp_all
    show ?thesis
    proof (cases "if is_VSWrappedFunction h ?n then wrapped_call h ?n else new_VSContext h ?n")
      case (Inl e)
      from failed_eq[OF nb nn Inl] show ?thesis .
    next
      case (Inr c)
      from created_eq[OF nb nn Inr] show ?thesis by simp
    qed
  qed
  from first native created_eq show ?thesis by blast
qed


lemma call_read_fields:
  "heap (call_read r eng) = heap eng"
  "next_ref (call_read r eng) = next_ref eng"
  "trace (call_read r eng) = trace eng @ [StateSet r SUSPENDED, CalleeRead r SUSPENDED]"
  "heap (native_done r eng) = heap eng"
  "next_ref (native_done r eng) = next_ref eng"
  "trace (native_done r eng) =
     trace eng @ [StateSet r SUSPENDED, CalleeRead r SUSPENDED, NativeRun r SUSPENDED,
                  StateSet r RUNNING]"
  by (simp_all add: call_read_def native_done_def record_event_def)


section \<open>The transient suspension of a native call\<close>




section \<open>Types as callees\<close>

text \<open>
  Claim C9. When the entry \<open>fn\<close> at the callee's place of the stack is a type, the engine
  takes its \<^verbatim>\<open>__new__\<close> as the callee before the tests for a native callable and for a
  wrapped function are made, so the tests are made of \<^verbatim>\<open>__new__\<close> and not of the type:
  \<^item> if \<^verbatim>\<open>__new__\<close> is a builtin or carries \<^verbatim>\<open>_native_invoke\<close>, the bridge is run on the
    frame, the result is pushed and the loop goes on, with no context allocated;
  \<^item> otherwise the new context is made from \<^verbatim>\<open>__new__\<close> (by calling it if it is a
    \<^verbatim>\<open>VSWrappedFunction\<close>, by the constructor \<^verbatim>\<open>_VSContext\<close> if not), it gets the arguments,
    the links and state PENDING, the caller is left SUSPENDED without the arguments and
    the callee, and the new context is returned; if making the context raises, the
    exception escapes and the caller is left SUSPENDED with its stack as it was;
  \<^item> in every case the pass ends as it does for the frame that has \<^verbatim>\<open>__new__\<close> at the
    callee's place instead (\<^verbatim>\<open>__new__\<close> not being a type itself), and leaves the same
    engine when a context is made.
\<close>

theorem type_callee_dispatches_as_its_new:
  assumes "at_call r eng ins" and "arg ins = Some (length args)"
    and "stack (heap eng r) = rev args @ fn # rest" and "is_type h fn"
  shows "(isbuiltin h (dunder_new h fn) \<or> has_native_invoke h (dunder_new h fn) \<longrightarrow>
            (\<exists>c2 result eng'.
               run_natively h ((heap eng r)\<lparr>pointer := Suc (pointer (heap eng r)),
                                           state := SUSPENDED\<rparr>) ins = (c2, Inr result) \<and>
               loop_body h r eng = (Continue, eng') \<and>
               heap eng' r = push result (c2\<lparr>state := RUNNING\<rparr>) \<and>
               next_ref eng' = next_ref eng)) \<and>
         (\<not> isbuiltin h (dunder_new h fn) \<and> \<not> has_native_invoke h (dunder_new h fn) \<longrightarrow>
            (\<forall>created.
               (if is_VSWrappedFunction h (dunder_new h fn) then wrapped_call h (dunder_new h fn)
                else new_VSContext h (dunder_new h fn)) = Inr created \<longrightarrow>
               (\<exists>eng'. loop_body h r eng = (Return (Some (next_ref eng)), eng') \<and>
                  heap eng' r =
                    (heap eng r)\<lparr>pointer := Suc (pointer (heap eng r)), state := SUSPENDED,
                                  next_ctx := Some (next_ref eng), stack := rest\<rparr> \<and>
                  (r \<noteq> next_ref eng \<longrightarrow>
                     heap eng' (next_ref eng) =
                       created\<lparr>prev_ctx := Some r, state := PENDING,
                                done_callbacks := done_callbacks created @ [on_result_cb r],
                                exception_callbacks :=
                                  exception_callbacks created @ [on_exception_cb r],
                                pending_args := args\<rparr>) \<and>
                  next_ref eng' = Suc (next_ref eng))) \<and>
            (\<forall>e.
               (if is_VSWrappedFunction h (dunder_new h fn) then wrapped_call h (dunder_new h fn)
                else new_VSContext h (dunder_new h fn)) = Inl e \<longrightarrow>
               (\<exists>eng'. loop_body h r eng = (Raise e, eng') \<and>
                  heap eng' r =
                    (heap eng r)\<lparr>pointer := Suc (pointer (heap eng r)), state := SUSPENDED\<rparr> \<and>
                  next_ref eng' = next_ref eng))) \<and>
         (\<not> is_type h (dunder_new h fn) \<longrightarrow>
            fst (loop_body h r eng) =
              fst (loop_body h r
                     (set_ctx r ((heap eng r)\<lparr>stack := rev args @ dunder_new h fn # rest\<rparr>) eng)) \<and>
            (\<forall>created.
               \<not> isbuiltin h (dunder_new h fn) \<and> \<not> has_native_invoke h (dunder_new h fn) \<and>
               (if is_VSWrappedFunction h (dunder_new h fn) then wrapped_call h (dunder_new h fn)
                else new_VSContext h (dunder_new h fn)) = Inr created \<longrightarrow>
               loop_body h r eng =
                 loop_body h r
                   (set_ctx r ((heap eng r)\<lparr>stack := rev args @ dunder_new h fn # rest\<rparr>) eng)))"
proof (intro conjI impI allI)
  let ?n = "dunder_new h fn"
  have cv: "callee_value h fn = ?n"
    using assms(4) by (simp add: callee_value_def)
  have st: "stack (heap (after_fetch r eng) r) = rev args @ fn # rest"
    using assms(3) by (simp add: heap_after_fetch)
  have lb: "loop_body h r eng = call_function h r ins (after_fetch r eng)"
    by (rule loop_body_at_call[OF assms(1)])
  {
    assume nat: "isbuiltin h ?n \<or> has_native_invoke h ?n"
    then have n1: "isbuiltin h (callee_value h fn) \<or> has_native_invoke h (callee_value h fn)"
      by (simp add: cv)
    from loop_body_native[OF assms(1,2,3) n1]
    obtain c2 result where
      rn: "run_natively h ((heap eng r)\<lparr>pointer := Suc (pointer (heap eng r)),
                                       state := SUSPENDED\<rparr>) ins = (c2, Inr result)"
      and lbn: "loop_body h r eng =
        (Continue, set_ctx r (push result (c2\<lparr>state := RUNNING\<rparr>))
            (native_done r (after_fetch r eng)))"
      by blast
    show "\<exists>c2 result eng'.
        run_natively h ((heap eng r)\<lparr>pointer := Suc (pointer (heap eng r)),
                                    state := SUSPENDED\<rparr>) ins = (c2, Inr result) \<and>
        loop_body h r eng = (Continue, eng') \<and>
        heap eng' r = push result (c2\<lparr>state := RUNNING\<rparr>) \<and>
        next_ref eng' = next_ref eng"
      apply (rule exI[of _ c2], rule exI[of _ result])
      using rn lbn
      by (simp add: set_ctx_def record_event_def call_read_fields heap_after_fetch)
  }
  {
    fix created
    assume nn: "\<not> isbuiltin h ?n \<and> \<not> has_native_invoke h ?n"
      and cr: "(if is_VSWrappedFunction h ?n then wrapped_call h ?n else new_VSContext h ?n) =
               Inr created"
    have a1: "\<not> isbuiltin h (callee_value h fn)" "\<not> has_native_invoke h (callee_value h fn)"
      "(if is_VSWrappedFunction h (callee_value h fn) then wrapped_call h (callee_value h fn)
        else new_VSContext h (callee_value h fn)) = Inr created"
      unfolding cv using nn cr by simp_all
    from call_function_interpreted[OF assms(2) st a1] lb
    show "\<exists>eng'. loop_body h r eng = (Return (Some (next_ref eng)), eng') \<and>
        heap eng' r =
          (heap eng r)\<lparr>pointer := Suc (pointer (heap eng r)), state := SUSPENDED,
                        next_ctx := Some (next_ref eng), stack := rest\<rparr> \<and>
        (r \<noteq> next_ref eng \<longrightarrow>
           heap eng' (next_ref eng) =
             created\<lparr>prev_ctx := Some r, state := PENDING,
                      done_callbacks := done_callbacks created @ [on_result_cb r],
                      exception_callbacks := exception_callbacks created @ [on_exception_cb r],
                      pending_args := args\<rparr>) \<and>
        next_ref eng' = Suc (next_ref eng)"
      by (simp add: set_ctx_def record_event_def call_read_fields heap_after_fetch)
  }
  {
    fix e
    assume nn: "\<not> isbuiltin h ?n \<and> \<not> has_native_invoke h ?n"
      and cr: "(if is_VSWrappedFunction h ?n then wrapped_call h ?n else new_VSContext h ?n) =
               Inl e"
    have a1: "\<not> isbuiltin h (callee_value h fn)" "\<not> has_native_invoke h (callee_value h fn)"
      "(if is_VSWrappedFunction h (callee_value h fn) then wrapped_call h (callee_value h fn)
        else new_VSContext h (callee_value h fn)) = Inl e"
      unfolding cv using nn cr by simp_all
    from call_function_creation_fails[OF assms(2) st a1] lb
    show "\<exists>eng'. loop_body h r eng = (Raise e, eng') \<and>
        heap eng' r =
          (heap eng r)\<lparr>pointer := Suc (pointer (heap eng r)), state := SUSPENDED\<rparr> \<and>
        next_ref eng' = next_ref eng"
      by (simp add: set_ctx_def call_read_fields heap_after_fetch)
  }
  {
    assume nt: "\<not> is_type h ?n"
    from type_callee_same_as_new[OF assms nt]
    show "fst (loop_body h r eng) =
        fst (loop_body h r
               (set_ctx r ((heap eng r)\<lparr>stack := rev args @ dunder_new h fn # rest\<rparr>) eng))"
      by blast
  }
  {
    fix created
    assume nt: "\<not> is_type h ?n"
      and c: "\<not> isbuiltin h ?n \<and> \<not> has_native_invoke h ?n \<and>
              (if is_VSWrappedFunction h ?n then wrapped_call h ?n else new_VSContext h ?n) =
              Inr created"
    from type_callee_same_as_new[OF assms nt, of created] c
    show "loop_body h r eng =
        loop_body h r
          (set_ctx r ((heap eng r)\<lparr>stack := rev args @ dunder_new h fn # rest\<rparr>) eng)"
      by blast
  }
qed


theorem type_callee_dispatches_as_its_new_witness:
  "(\<exists>eng'. loop_body sample_host 0
             (engine_with (frame [CALL_FUNCTION 1] [PyInt 4, PyType (PyBuiltin ''new'')] RUNNING)) =
             (Continue, eng') \<and>
           stack (heap eng' 0) = [PyObject] \<and> state (heap eng' 0) = RUNNING \<and>
           next_ref eng' = 1) \<and>
   (\<exists>eng'. loop_body sample_host 0
             (engine_with (frame [CALL_FUNCTION 1]
                             [PyInt 4, PyType (PyFunction [\<lparr>opname = ''RETURN_VALUE'', arg = None\<rparr>])]
                             RUNNING)) =
             (Return (Some 1), eng') \<and>
           state (heap eng' 0) = SUSPENDED \<and> stack (heap eng' 0) = [] \<and>
           next_ctx (heap eng' 0) = Some 1 \<and>
           instructions (heap eng' 1) = [\<lparr>opname = ''RETURN_VALUE'', arg = None\<rparr>] \<and>
           pending_args (heap eng' 1) = [PyInt 4] \<and> prev_ctx (heap eng' 1) = Some 0 \<and>
           state (heap eng' 1) = PENDING \<and> next_ref eng' = 2) \<and>
   loop_body sample_host 0
     (engine_with (frame [CALL_FUNCTION 1] [PyInt 4, PyType (PyFunction [])] RUNNING)) =
   loop_body sample_host 0
     (engine_with (frame [CALL_FUNCTION 1] [PyInt 4, PyFunction []] RUNNING))"
proof (intro conjI)
  let ?fn = "PyType (PyBuiltin ''new'')"
  let ?E = "engine_with (frame [CALL_FUNCTION 1] [PyInt 4, ?fn] RUNNING)"
  let ?X = "(heap ?E 0)\<lparr>pointer := Suc (pointer (heap ?E 0)), state := SUSPENDED\<rparr>"
  have h1: "at_call 0 ?E (CALL_FUNCTION 1)"
    by (simp add: at_call_def sample_defs)
  have h2: "arg (CALL_FUNCTION 1) = Some (length [PyInt 4])"
    by (simp add: CALL_FUNCTION_def)
  have h3: "stack (heap ?E 0) = rev [PyInt 4] @ ?fn # []"
    by (simp add: sample_defs)
  have h4: "is_type sample_host ?fn" by (simp add: sample_defs)
  have n: "isbuiltin sample_host (dunder_new sample_host ?fn) \<or>
           has_native_invoke sample_host (dunder_new sample_host ?fn)"
    by (simp add: sample_defs)
  have st: "stack ?X = rev [PyInt 4] @ ?fn # []" by (simp add: sample_defs)
  have rn: "run_natively sample_host ?X (CALL_FUNCTION 1) = (?X\<lparr>stack := []\<rparr>, Inr PyObject)"
    by (subst run_natively_on_stack[OF h2 st]) (simp add: sample_host_def sample_call_def)
  from type_callee_dispatches_as_its_new[OF h1 h2 h3 h4] n
  obtain c2 result eng' where
    rn': "run_natively sample_host ?X (CALL_FUNCTION 1) = (c2, Inr result)"
    and lb: "loop_body sample_host 0 ?E = (Continue, eng')"
    and hp: "heap eng' 0 = push result (c2\<lparr>state := RUNNING\<rparr>)"
    and nr: "next_ref eng' = next_ref ?E"
    by blast
  from rn rn' have "c2 = ?X\<lparr>stack := []\<rparr>" "result = PyObject" by simp_all
  with hp nr have "stack (heap eng' 0) = [PyObject]" "state (heap eng' 0) = RUNNING"
    "next_ref eng' = 1"
    by (simp_all add: push_def engine_with_def)
  with lb show "\<exists>eng'. loop_body sample_host 0 ?E = (Continue, eng') \<and>
      stack (heap eng' 0) = [PyObject] \<and> state (heap eng' 0) = RUNNING \<and> next_ref eng' = 1"
    by blast
next
  let ?code = "[\<lparr>opname = ''RETURN_VALUE'', arg = None\<rparr>]"
  let ?fn = "PyType (PyFunction ?code)"
  let ?E = "engine_with (frame [CALL_FUNCTION 1] [PyInt 4, ?fn] RUNNING)"
  have h1: "at_call 0 ?E (CALL_FUNCTION 1)"
    by (simp add: at_call_def sample_defs)
  have h2: "arg (CALL_FUNCTION 1) = Some (length [PyInt 4])"
    by (simp add: CALL_FUNCTION_def)
  have h3: "stack (heap ?E 0) = rev [PyInt 4] @ ?fn # []"
    by (simp add: sample_defs)
  have h4: "is_type sample_host ?fn" by (simp add: sample_defs)
  have n: "\<not> isbuiltin sample_host (dunder_new sample_host ?fn) \<and>
           \<not> has_native_invoke sample_host (dunder_new sample_host ?fn)"
    by (simp add: sample_defs)
  have cr: "(if is_VSWrappedFunction sample_host (dunder_new sample_host ?fn)
             then wrapped_call sample_host (dunder_new sample_host ?fn)
             else new_VSContext sample_host (dunder_new sample_host ?fn)) =
            Inr (fresh_context ?code)"
    by (simp add: sample_defs)
  have ne: "0 \<noteq> next_ref ?E" "next_ref ?E = 1" by (simp_all add: engine_with_def)
  from type_callee_dispatches_as_its_new[OF h1 h2 h3 h4] n cr ne(1)
  obtain eng' where
    lb: "loop_body sample_host 0 ?E = (Return (Some (next_ref ?E)), eng')"
    and h0: "heap eng' 0 =
      (heap ?E 0)\<lparr>pointer := Suc (pointer (heap ?E 0)), state := SUSPENDED,
                   next_ctx := Some (next_ref ?E), stack := []\<rparr>"
    and hn: "heap eng' (next_ref ?E) =
      (fresh_context ?code)\<lparr>prev_ctx := Some 0, state := PENDING,
         done_callbacks := done_callbacks (fresh_context ?code) @ [on_result_cb 0],
         exception_callbacks := exception_callbacks (fresh_context ?code) @ [on_exception_cb 0],
         pending_args := [PyInt 4]\<rparr>"
    and nr: "next_ref eng' = Suc (next_ref ?E)"
    by blast
  from h0 hn nr have "state (heap eng' 0) = SUSPENDED" "stack (heap eng' 0) = []"
    "next_ctx (heap eng' 0) = Some 1" "instructions (heap eng' 1) = ?code"
    "pending_args (heap eng' 1) = [PyInt 4]" "prev_ctx (heap eng' 1) = Some 0"
    "state (heap eng' 1) = PENDING" "next_ref eng' = 2"
    unfolding ne(2) by (simp_all add: fresh_context_def)
  with lb show "\<exists>eng'. loop_body sample_host 0 ?E = (Return (Some 1), eng') \<and>
      state (heap eng' 0) = SUSPENDED \<and> stack (heap eng' 0) = [] \<and>
      next_ctx (heap eng' 0) = Some 1 \<and> instructions (heap eng' 1) = ?code \<and>
      pending_args (heap eng' 1) = [PyInt 4] \<and> prev_ctx (heap eng' 1) = Some 0 \<and>
      state (heap eng' 1) = PENDING \<and> next_ref eng' = 2"
    unfolding ne(2) by blast
next
  let ?fn = "PyType (PyFunction [])"
  let ?E = "engine_with (frame [CALL_FUNCTION 1] [PyInt 4, ?fn] RUNNING)"
  have h1: "at_call 0 ?E (CALL_FUNCTION 1)"
    by (simp add: at_call_def sample_defs)
  have h2: "arg (CALL_FUNCTION 1) = Some (length [PyInt 4])"
    by (simp add: CALL_FUNCTION_def)
  have h3: "stack (heap ?E 0) = rev [PyInt 4] @ ?fn # []"
    by (simp add: sample_defs)
  have h4: "is_type sample_host ?fn" by (simp add: sample_defs)
  have h5: "\<not> is_type sample_host (dunder_new sample_host ?fn)" by (simp add: sample_defs)
  have n: "\<not> isbuiltin sample_host (dunder_new sample_host ?fn) \<and>
           \<not> has_native_invoke sample_host (dunder_new sample_host ?fn) \<and>
           (if is_VSWrappedFunction sample_host (dunder_new sample_host ?fn)
            then wrapped_call sample_host (dunder_new sample_host ?fn)
            else new_VSContext sample_host (dunder_new sample_host ?fn)) = Inr (fresh_context [])"
    by (simp add: sample_defs)
  have e: "set_ctx 0 ((heap ?E 0)\<lparr>stack := rev [PyInt 4] @ dunder_new sample_host ?fn # []\<rparr>) ?E =
           engine_with (frame [CALL_FUNCTION 1] [PyInt 4, PyFunction []] RUNNING)"
    by (simp add: sample_defs set_ctx_def)
  from type_callee_dispatches_as_its_new[OF h1 h2 h3 h4] h5 n
  have "loop_body sample_host 0 ?E =
        loop_body sample_host 0
          (set_ctx 0 ((heap ?E 0)\<lparr>stack := rev [PyInt 4] @ dunder_new sample_host ?fn # []\<rparr>) ?E)"
    by blast
  then show "loop_body sample_host 0 ?E =
      loop_body sample_host 0 (engine_with (frame [CALL_FUNCTION 1] [PyInt 4, PyFunction []] RUNNING))"
    unfolding e .
qed

lemma loop_body_native_fault:
  assumes "at_call r eng ins" and "arg ins = Some (length args)"
    and "stack (heap eng r) = rev args @ fn # rest"
    and "isbuiltin h (callee_value h fn) \<or> has_native_invoke h (callee_value h fn)"
    and "callable h fn" and "call h fn args = Inl e"
  shows "run_natively h ((heap eng r)\<lparr>pointer := Suc (pointer (heap eng r)),
                                     state := SUSPENDED\<rparr>) ins =
           (safe_raise ((heap eng r)\<lparr>pointer := Suc (pointer (heap eng r)),
                                     state := SUSPENDED, stack := rest\<rparr>) e,
            Inr (py_none h))"
    and "loop_body h r eng =
           (Continue,
            set_ctx r (push (py_none h)
                         ((safe_raise ((heap eng r)\<lparr>pointer := Suc (pointer (heap eng r)),
                                                   state := SUSPENDED, stack := rest\<rparr>) e)
                            \<lparr>state := RUNNING\<rparr>))
              (native_done r (after_fetch r eng)))"
proof -
  let ?c = "(heap eng r)\<lparr>pointer := Suc (pointer (heap eng r)), state := SUSPENDED\<rparr>"
  have st: "stack ?c = rev args @ fn # rest" using assms(3) by simp
  show rn: "run_natively h ?c ins =
      (safe_raise ((heap eng r)\<lparr>pointer := Suc (pointer (heap eng r)),
                                state := SUSPENDED, stack := rest\<rparr>) e, Inr (py_none h))"
    using assms(5,6) by (simp add: run_natively_on_stack[OF assms(2) st])
  have st': "stack (heap (after_fetch r eng) r) = rev args @ fn # rest"
    using assms(3) by (simp add: heap_after_fetch)
  have rn': "run_natively h ((heap (after_fetch r eng) r)\<lparr>state := SUSPENDED\<rparr>) ins =
      (safe_raise ((heap eng r)\<lparr>pointer := Suc (pointer (heap eng r)),
                                state := SUSPENDED, stack := rest\<rparr>) e, Inr (py_none h))"
    using rn by (simp add: heap_after_fetch)
  have "loop_body h r eng = call_function h r ins (after_fetch r eng)"
    by (rule loop_body_at_call[OF assms(1)])
  also note call_function_native[OF assms(2) st' assms(4) rn']
  finally show "loop_body h r eng =
           (Continue,
            set_ctx r (push (py_none h)
                         ((safe_raise ((heap eng r)\<lparr>pointer := Suc (pointer (heap eng r)),
                                                   state := SUSPENDED, stack := rest\<rparr>) e)
                            \<lparr>state := RUNNING\<rparr>))
              (native_done r (after_fetch r eng)))" .
qed

lemma safe_raise_frame:
  "state (safe_raise c e) = ERRORED" "stack (safe_raise c e) = stack c"
  "pointer (safe_raise c e) = pointer c"
  "exception_callbacks c = [] \<Longrightarrow> fault (safe_raise c e) = Some e"
  by (simp_all add: safe_raise_def)

section \<open>A native callable that raises\<close>

text \<open>
  Claim C3. When the native callee of a \<^verbatim>\<open>CALL_FUNCTION\<close> raises \<open>e\<close>, the bridge hands \<open>e\<close>
  to \<^verbatim>\<open>safe_raise\<close> on the frame (from which the arguments and the callee have been popped)
  and returns \<^verbatim>\<open>None\<close>. The engine does push that \<^verbatim>\<open>None\<close>: after the pass through the loop
  body the stack of the frame is \<^verbatim>\<open>None\<close> on top of what was below the callee, the state is
  RUNNING, and the loop goes on.
\<close>

theorem native_fault_pushes_none:
  assumes "at_call r eng ins" and "arg ins = Some (length args)"
    and "stack (heap eng r) = rev args @ fn # rest"
    and "isbuiltin h (callee_value h fn) \<or> has_native_invoke h (callee_value h fn)"
    and "callable h fn" and "call h fn args = Inl e"
  shows "run_natively h ((heap eng r)\<lparr>pointer := Suc (pointer (heap eng r)),
                                     state := SUSPENDED\<rparr>) ins =
           (safe_raise ((heap eng r)\<lparr>pointer := Suc (pointer (heap eng r)),
                                     state := SUSPENDED, stack := rest\<rparr>) e,
            Inr (py_none h)) \<and>
         (\<exists>eng'. loop_body h r eng = (Continue, eng') \<and>
                 stack (heap eng' r) = py_none h # rest \<and>
                 state (heap eng' r) = RUNNING)"
  using loop_body_native_fault[OF assms]
  by (simp add: set_ctx_def record_event_def call_read_def native_done_def push_def safe_raise_frame)

theorem native_fault_pushes_none_witness:
  "\<exists>eng'. loop_body sample_host 0
            (engine_with (frame [CALL_FUNCTION 0] [PyBuiltin ''boom'', PyInt 9] RUNNING)) =
            (Continue, eng') \<and>
          stack (heap eng' 0) = [PyNone, PyInt 9] \<and> state (heap eng' 0) = RUNNING"
proof -
  let ?E = "engine_with (frame [CALL_FUNCTION 0] [PyBuiltin ''boom'', PyInt 9] RUNNING)"
  have h1: "at_call 0 ?E (CALL_FUNCTION 0)"
    by (simp add: at_call_def sample_defs)
  have h2: "arg (CALL_FUNCTION 0) = Some (length ([] :: pyval list))"
    by (simp add: CALL_FUNCTION_def)
  have h3: "stack (heap ?E 0) = rev [] @ PyBuiltin ''boom'' # [PyInt 9]"
    by (simp add: sample_defs)
  have h4: "isbuiltin sample_host (callee_value sample_host (PyBuiltin ''boom'')) \<or>
            has_native_invoke sample_host (callee_value sample_host (PyBuiltin ''boom''))"
    by (simp add: sample_defs)
  have h5: "callable sample_host (PyBuiltin ''boom'')" by (simp add: sample_defs)
  have h6: "call sample_host (PyBuiltin ''boom'') [] = Inl (HostError ''boom'')"
    by (simp add: sample_defs sample_call_def)
  have v: "py_none sample_host = PyNone" by (simp add: sample_defs)
  from native_fault_pushes_none[OF h1 h2 h3 h4 h5 h6]
  have "\<exists>eng'. loop_body sample_host 0 ?E = (Continue, eng') \<and>
          stack (heap eng' 0) = py_none sample_host # [PyInt 9] \<and> state (heap eng' 0) = RUNNING"
    by (elim conjE)
  then show ?thesis unfolding v .
qed

section \<open>A frame that was faulted\<close>

text \<open>
  Claim C6. When the native callee of a \<^verbatim>\<open>CALL_FUNCTION\<close> raises \<open>e\<close>, the bridge leaves the
  frame ERRORED (with \<open>e\<close> attached if the frame has no exception callbacks), its stack
  being what was below the callee. The engine then changes that frame: it sets the state
  to RUNNING and pushes \<^verbatim>\<open>None\<close>, and the loop goes on with the next instruction.
\<close>

theorem faulted_frame_is_resumed:
  assumes "at_call r eng ins" and "arg ins = Some (length args)"
    and "stack (heap eng r) = rev args @ fn # rest"
    and "isbuiltin h (callee_value h fn) \<or> has_native_invoke h (callee_value h fn)"
    and "callable h fn" and "call h fn args = Inl e"
  shows "\<exists>c2 eng'.
           fst (run_natively h ((heap eng r)\<lparr>pointer := Suc (pointer (heap eng r)),
                                            state := SUSPENDED\<rparr>) ins) = c2 \<and>
           state c2 = ERRORED \<and> stack c2 = rest \<and>
           (exception_callbacks (heap eng r) = [] \<longrightarrow> fault c2 = Some e) \<and>
           loop_body h r eng = (Continue, eng') \<and>
           run_loop h r eng = run_loop h r eng' \<and>
           state (heap eng' r) = RUNNING \<and>
           stack (heap eng' r) = py_none h # stack c2"
proof -
  note f = loop_body_native_fault[OF assms]
  from f(2) have "run_loop h r eng = run_loop h r (snd (loop_body h r eng))"
    by (simp add: run_loop_Continue)
  with f show ?thesis
    by (simp add: set_ctx_def record_event_def call_read_def native_done_def push_def safe_raise_frame)
qed

theorem faulted_frame_is_resumed_witness:
  "\<exists>c2 eng'.
     fst (run_natively sample_host
            ((frame [CALL_FUNCTION 0] [PyBuiltin ''boom'', PyInt 9] SUSPENDED)\<lparr>pointer := 1\<rparr>)
            (CALL_FUNCTION 0)) = c2 \<and>
     state c2 = ERRORED \<and> stack c2 = [PyInt 9] \<and> fault c2 = Some (HostError ''boom'') \<and>
     loop_body sample_host 0
       (engine_with (frame [CALL_FUNCTION 0] [PyBuiltin ''boom'', PyInt 9] RUNNING)) =
       (Continue, eng') \<and>
     state (heap eng' 0) = RUNNING \<and> stack (heap eng' 0) = PyNone # stack c2"
proof -
  let ?E = "engine_with (frame [CALL_FUNCTION 0] [PyBuiltin ''boom'', PyInt 9] RUNNING)"
  have h1: "at_call 0 ?E (CALL_FUNCTION 0)"
    by (simp add: at_call_def sample_defs)
  have h2: "arg (CALL_FUNCTION 0) = Some (length ([] :: pyval list))"
    by (simp add: CALL_FUNCTION_def)
  have h3: "stack (heap ?E 0) = rev [] @ PyBuiltin ''boom'' # [PyInt 9]"
    by (simp add: sample_defs)
  have h4: "isbuiltin sample_host (callee_value sample_host (PyBuiltin ''boom'')) \<or>
            has_native_invoke sample_host (callee_value sample_host (PyBuiltin ''boom''))"
    by (simp add: sample_defs)
  have h5: "callable sample_host (PyBuiltin ''boom'')" by (simp add: sample_defs)
  have h6: "call sample_host (PyBuiltin ''boom'') [] = Inl (HostError ''boom'')"
    by (simp add: sample_defs sample_call_def)
  have v: "py_none sample_host = PyNone"
    "(heap ?E 0)\<lparr>pointer := Suc (pointer (heap ?E 0)), state := SUSPENDED\<rparr> =
       (frame [CALL_FUNCTION 0] [PyBuiltin ''boom'', PyInt 9] SUSPENDED)\<lparr>pointer := 1\<rparr>"
    by (simp_all add: sample_defs)
  have cb: "exception_callbacks (heap ?E 0) = []" by (simp add: sample_defs)
  from faulted_frame_is_resumed[OF h1 h2 h3 h4 h5 h6] cb
  show ?thesis unfolding v by blast
qed

text \<open>
  The whole run of a frame whose first instruction calls a builtin that raises, followed
  by \<^verbatim>\<open>POP_TOP\<close> and \<^verbatim>\<open>RETURN_VALUE\<close>: the fault is attached by the bridge, and yet the run
  goes on through the remaining instructions and ends with the frame FINISHED, its pointer
  at the end of the code.
\<close>

lemma faulted_frame_runs_to_finish:
  "map_option (\<lambda>(out, eng'). (out, state (heap eng' 0), pointer (heap eng' 0),
                               stack (heap eng' 0), fault (heap eng' 0)))
     (run_context sample_host 0
        (engine_with (frame [CALL_FUNCTION 0, \<lparr>opname = ''POP_TOP'', arg = None\<rparr>,
                             \<lparr>opname = ''RETURN_VALUE'', arg = None\<rparr>]
                            [PyBuiltin ''boom''] PENDING))) =
   Some (Return None, FINISHED, 3, [], Some (HostError ''boom''))"
  by (simp add: run_context_def set_state_def run_loop.simps loop_body_def call_function_def set_state_def read_callee_def enter_bridge_def run_natively_def
      next_instruction_def pop_def push_def safe_raise_def set_ctx_def record_event_def call_read_def native_done_def sample_call_def
      sample_handlers_def sample_defs Let_def)

section \<open>A callee that cannot be invoked\<close>

text \<open>
  Claim C1. A callee that is neither a builtin, nor marked with \<^verbatim>\<open>_native_invoke\<close>, nor a
  \<^verbatim>\<open>VSWrappedFunction\<close> is handed to the constructor \<^verbatim>\<open>_VSContext\<close> without a test whether
  it can be called. So \<^verbatim>\<open>safe_raise\<close> is not reached: the frame is left SUSPENDED, not
  ERRORED, with no fault attached and no exception callback notified, and the pass through
  the loop body ends either with the exception of the constructor escaping
  \<^verbatim>\<open>run_context\<close> or with a new context returned to the driver.
\<close>

theorem not_invokable_callee_reaches_constructor:
  assumes "at_call r eng ins" and "arg ins = Some (length args)"
    and "stack (heap eng r) = rev args @ fn # rest"
    and "\<not> isbuiltin h (callee_value h fn)" and "\<not> has_native_invoke h (callee_value h fn)"
    and "\<not> is_VSWrappedFunction h (callee_value h fn)"
  shows "\<exists>out eng'. loop_body h r eng = (out, eng') \<and>
           state (heap eng' r) = SUSPENDED \<and>
           fault (heap eng' r) = fault (heap eng r) \<and>
           notified (heap eng' r) = notified (heap eng r) \<and>
           (case new_VSContext h (callee_value h fn) of
              Inl e \<Rightarrow> out = Raise e \<and> next_ref eng' = next_ref eng
            | Inr created \<Rightarrow> out = Return (Some (next_ref eng)) \<and>
                             next_ref eng' = Suc (next_ref eng))"
proof -
  let ?e = "after_fetch r eng"
  have st: "stack (heap ?e r) = rev args @ fn # rest"
    using assms(3) by (simp add: heap_after_fetch)
  have lb: "loop_body h r eng = call_function h r ins ?e"
    by (rule loop_body_at_call[OF assms(1)])
  show ?thesis
  proof (cases "new_VSContext h (callee_value h fn)")
    case (Inl e)
    with assms(6) have cr: "(if is_VSWrappedFunction h (callee_value h fn)
          then wrapped_call h (callee_value h fn)
          else new_VSContext h (callee_value h fn)) = Inl e"
      by simp
    from call_function_creation_fails[OF assms(2) st assms(4,5) cr] lb Inl
    show ?thesis by (simp add: set_ctx_def record_event_def call_read_def native_done_def heap_after_fetch)
  next
    case (Inr created)
    with assms(6) have cr: "(if is_VSWrappedFunction h (callee_value h fn)
          then wrapped_call h (callee_value h fn)
          else new_VSContext h (callee_value h fn)) = Inr created"
      by simp
    from call_function_interpreted[OF assms(2) st assms(4,5) cr] lb Inr
    show ?thesis by (simp add: set_ctx_def record_event_def call_read_def native_done_def heap_after_fetch)
  qed
qed

theorem not_invokable_callee_reaches_constructor_witness:
  "\<exists>eng'. loop_body sample_host 0 (engine_with (frame [CALL_FUNCTION 0] [PyInt 5] RUNNING)) =
            (Raise (HostError ''AttributeError''), eng') \<and>
          state (heap eng' 0) = SUSPENDED \<and> fault (heap eng' 0) = None \<and>
          notified (heap eng' 0) = [] \<and> next_ref eng' = 1"
proof -
  let ?E = "engine_with (frame [CALL_FUNCTION 0] [PyInt 5] RUNNING)"
  have h1: "at_call 0 ?E (CALL_FUNCTION 0)"
    by (simp add: at_call_def sample_defs)
  have h2: "arg (CALL_FUNCTION 0) = Some (length ([] :: pyval list))"
    by (simp add: CALL_FUNCTION_def)
  have h3: "stack (heap ?E 0) = rev [] @ PyInt 5 # []"
    by (simp add: sample_defs)
  have h4: "\<not> isbuiltin sample_host (callee_value sample_host (PyInt 5))"
    by (simp add: sample_defs)
  have h5: "\<not> has_native_invoke sample_host (callee_value sample_host (PyInt 5))"
    by (simp add: sample_defs)
  have h6: "\<not> is_VSWrappedFunction sample_host (callee_value sample_host (PyInt 5))"
    by (simp add: sample_defs)
  have v: "new_VSContext sample_host (callee_value sample_host (PyInt 5)) =
             Inl (HostError ''AttributeError'')"
    "fault (heap ?E 0) = None" "notified (heap ?E 0) = []" "next_ref ?E = 1"
    by (simp_all add: sample_defs)
  from not_invokable_callee_reaches_constructor[OF h1 h2 h3 h4 h5 h6]
  show ?thesis unfolding v by auto
qed

section \<open>Running a frame that is FINISHED or ERRORED\<close>

text \<open>
  Claim C2, as stated, fails: \<^verbatim>\<open>run_context\<close> sets the state to RUNNING before the loop
  looks at it. An ERRORED frame whose next instruction calls a wrapped function is
  dispatched, and a new context is returned; a FINISHED frame whose next instruction has
  no handler makes \<^verbatim>\<open>run_context\<close> raise.
\<close>

theorem run_on_terminal_frame_counterexample:
  "map_option fst
     (run_context sample_host 0
        (engine_with (frame [CALL_FUNCTION 0] [PyWrapped []] ERRORED))) =
     Some (Return (Some 1)) \<and>
   map_option fst
     (run_context sample_host 0
        (engine_with (frame [\<lparr>opname = ''FOO_BAR'', arg = None\<rparr>] [] FINISHED))) =
     Some (Raise (NotImplementedError ''FOO_BAR''))"
  by (simp add: run_context_def set_state_def run_loop.simps loop_body_def call_function_def set_state_def read_callee_def enter_bridge_def
      next_instruction_def pop_def set_ctx_def record_event_def call_read_def native_done_def fill_args_def add_done_callback_def
      add_exception_callback_def sample_handlers_def sample_defs Let_def)


text \<open>
  Claim C2, as amended. Inside the loop the claim holds: a pass that finds the frame
  ERRORED returns \<^verbatim>\<open>None\<close> and changes nothing, and a pass that finds it FINISHED calls
  \<^verbatim>\<open>finish\<close> on it and returns \<^verbatim>\<open>None\<close>; neither fetches an instruction. On entry,
  \<^verbatim>\<open>run_context\<close> overwrites the state, so what it does is the same whatever state the frame
  was handed over in.
\<close>

theorem terminal_state_stops_loop_not_entry:
  "(state (heap eng r) = ERRORED \<longrightarrow> run_loop h r eng = Some (Return None, eng)) \<and>
   (state (heap eng r) = FINISHED \<longrightarrow>
      run_loop h r eng = Some (Return None, set_ctx r (finish h (heap eng r)) eng)) \<and>
   run_context h r (set_ctx r ((heap eng r)\<lparr>state := s\<rparr>) eng) = run_context h r eng"
proof (intro conjI impI)
  assume "state (heap eng r) = ERRORED"
  then have "loop_body h r eng = (Return None, eng)"
    by (simp add: loop_body_def)
  then show "run_loop h r eng = Some (Return None, eng)"
    by (rule run_loop_Return)
next
  assume "state (heap eng r) = FINISHED"
  then have "loop_body h r eng = (Return None, set_ctx r (finish h (heap eng r)) eng)"
    by (simp add: loop_body_def)
  then show "run_loop h r eng = Some (Return None, set_ctx r (finish h (heap eng r)) eng)"
    by (rule run_loop_Return)
next
  show "run_context h r (set_ctx r ((heap eng r)\<lparr>state := s\<rparr>) eng) = run_context h r eng"
    by (simp add: run_context_def set_state_def set_ctx_def record_event_def call_read_def native_done_def)
qed

theorem terminal_state_stops_loop_not_entry_witness:
  "run_loop sample_host 0 (engine_with (frame [CALL_FUNCTION 0] [PyWrapped []] ERRORED)) =
     Some (Return None, engine_with (frame [CALL_FUNCTION 0] [PyWrapped []] ERRORED)) \<and>
   run_loop sample_host 0 (engine_with (frame [CALL_FUNCTION 0] [PyWrapped []] FINISHED)) =
     Some (Return None, engine_with (frame [CALL_FUNCTION 0] [PyWrapped []] FINISHED)) \<and>
   run_context sample_host 0 (engine_with (frame [CALL_FUNCTION 0] [PyWrapped []] ERRORED)) =
     run_context sample_host 0 (engine_with (frame [CALL_FUNCTION 0] [PyWrapped []] PENDING))"
proof (intro conjI)
  let ?E = "engine_with (frame [CALL_FUNCTION 0] [PyWrapped []] ERRORED)"
  have "state (heap ?E 0) = ERRORED" by (simp add: sample_defs)
  with terminal_state_stops_loop_not_entry[of ?E 0 sample_host PENDING]
  show "run_loop sample_host 0 ?E = Some (Return None, ?E)" by blast
next
  let ?E = "engine_with (frame [CALL_FUNCTION 0] [PyWrapped []] FINISHED)"
  have f: "state (heap ?E 0) = FINISHED" by (simp add: sample_defs)
  have e: "set_ctx 0 (finish sample_host (heap ?E 0)) ?E = ?E"
    by (simp add: sample_defs set_ctx_def record_event_def call_read_def native_done_def)
  from terminal_state_stops_loop_not_entry[of ?E 0 sample_host PENDING] f
  have "run_loop sample_host 0 ?E =
        Some (Return None, set_ctx 0 (finish sample_host (heap ?E 0)) ?E)" by blast
  then show "run_loop sample_host 0 ?E = Some (Return None, ?E)" unfolding e .
next
  let ?E = "engine_with (frame [CALL_FUNCTION 0] [PyWrapped []] PENDING)"
  have e: "set_ctx 0 ((heap ?E 0)\<lparr>state := ERRORED\<rparr>) ?E =
           engine_with (frame [CALL_FUNCTION 0] [PyWrapped []] ERRORED)"
    by (simp add: sample_defs set_ctx_def record_event_def call_read_def native_done_def)
  from terminal_state_stops_loop_not_entry[of ?E 0 sample_host ERRORED]
  have "run_context sample_host 0 (set_ctx 0 ((heap ?E 0)\<lparr>state := ERRORED\<rparr>) ?E) =
        run_context sample_host 0 ?E" by blast
  then show "run_context sample_host 0 (engine_with (frame [CALL_FUNCTION 0] [PyWrapped []] ERRORED)) =
        run_context sample_host 0 ?E" unfolding e .
qed

section \<open>An opcode without a handler\<close>

text \<open>
  Claim C5, as stated, fails in its last part: a frame whose only instruction has an
  opcode unknown to the handler table makes \<^verbatim>\<open>run_context\<close> raise
  \<^verbatim>\<open>NotImplementedError\<close>, and the frame is left in state RUNNING.
\<close>

theorem unsupported_opcode_counterexample:
  "map_option (\<lambda>(out, eng'). (out, state (heap eng' 0)))
     (run_context sample_host 0
        (engine_with (frame [\<lparr>opname = ''FOO_BAR'', arg = None\<rparr>] [] PENDING))) =
   Some (Raise (NotImplementedError ''FOO_BAR''), RUNNING)"
  by (simp add: run_context_def set_state_def run_loop.simps loop_body_def
      next_instruction_def set_ctx_def record_event_def call_read_def native_done_def sample_handlers_def sample_defs Let_def)

text \<open>
  Claim C5, as amended. An instruction that is not \<^verbatim>\<open>CALL_FUNCTION\<close> and whose opcode has
  no handler makes the engine raise \<^verbatim>\<open>NotImplementedError\<close> with the name of the opcode;
  the exception escapes \<^verbatim>\<open>run_context\<close>, so the run of the frame ends there. The engine
  makes no transition for it: the frame keeps its state (RUNNING when \<^verbatim>\<open>run_context\<close> has
  just been entered) and everything else but the pointer, which the fetch has moved past
  the instruction.
\<close>

theorem unsupported_opcode_raises_and_keeps_state:
  assumes "pointer (heap eng r) < length (instructions (heap eng r))"
    and "instructions (heap eng r) ! pointer (heap eng r) = ins"
    and "opname ins \<noteq> ''CALL_FUNCTION''" and "handlers h (opname ins) = None"
  shows "(state (heap eng r) \<noteq> FINISHED \<and> state (heap eng r) \<noteq> ERRORED \<longrightarrow>
            (\<exists>eng'. run_loop h r eng = Some (Raise (NotImplementedError (opname ins)), eng') \<and>
                    heap eng' r = (heap eng r)\<lparr>pointer := Suc (pointer (heap eng r))\<rparr>)) \<and>
         (\<exists>eng'. run_context h r eng = Some (Raise (NotImplementedError (opname ins)), eng') \<and>
                 heap eng' r = (heap eng r)\<lparr>state := RUNNING,
                                             pointer := Suc (pointer (heap eng r))\<rparr>)"
proof -
  have step: "\<exists>eng'. run_loop h r e = Some (Raise (NotImplementedError (opname ins)), eng') \<and>
                heap eng' r = (heap e r)\<lparr>pointer := Suc (pointer (heap e r))\<rparr>"
    if "state (heap e r) \<noteq> FINISHED" "state (heap e r) \<noteq> ERRORED"
      "pointer (heap e r) < length (instructions (heap e r))"
      "instructions (heap e r) ! pointer (heap e r) = ins"
    for e :: "'a VansteinEngine"
  proof -
    let ?e' = "(set_ctx r ((heap e r)\<lparr>pointer := Suc (pointer (heap e r))\<rparr>) e)
                 \<lparr>current_instruction := Some ins\<rparr>"
    from that assms(3,4)
    have "loop_body h r e = (Raise (NotImplementedError (opname ins)), ?e')"
      by (simp add: loop_body_def next_instruction_def Let_def)
    then have "run_loop h r e = Some (Raise (NotImplementedError (opname ins)), ?e')"
      by (rule run_loop_Raise)
    then show ?thesis by (simp add: set_ctx_def record_event_def call_read_def native_done_def)
  qed
  let ?entry = "(set_ctx r ((heap eng r)\<lparr>state := RUNNING\<rparr>) (record_event (StateSet r RUNNING) eng))
                  \<lparr>current_context := Some r\<rparr>"
  have "\<exists>eng'. run_loop h r ?entry = Some (Raise (NotImplementedError (opname ins)), eng') \<and>
          heap eng' r = (heap ?entry r)\<lparr>pointer := Suc (pointer (heap ?entry r))\<rparr>"
    using assms(1,2) by (intro step) (simp_all add: set_ctx_def record_event_def call_read_def native_done_def)
  then have entry: "\<exists>eng'. run_context h r eng =
          Some (Raise (NotImplementedError (opname ins)), eng') \<and>
          heap eng' r = (heap eng r)\<lparr>state := RUNNING, pointer := Suc (pointer (heap eng r))\<rparr>"
    by (simp add: run_context_def set_state_def set_ctx_def record_event_def call_read_def native_done_def)
  from step[of eng] assms(1,2) entry show ?thesis by blast
qed

theorem unsupported_opcode_raises_and_keeps_state_witness:
  "(\<exists>eng'. run_loop sample_host 0
             (engine_with (frame [\<lparr>opname = ''FOO_BAR'', arg = None\<rparr>] [PyInt 1] SUSPENDED)) =
             Some (Raise (NotImplementedError ''FOO_BAR''), eng') \<and>
           heap eng' 0 = (frame [\<lparr>opname = ''FOO_BAR'', arg = None\<rparr>] [PyInt 1] SUSPENDED)
                           \<lparr>pointer := 1\<rparr>) \<and>
   (\<exists>eng'. run_context sample_host 0
             (engine_with (frame [\<lparr>opname = ''FOO_BAR'', arg = None\<rparr>] [PyInt 1] SUSPENDED)) =
             Some (Raise (NotImplementedError ''FOO_BAR''), eng') \<and>
           heap eng' 0 = (frame [\<lparr>opname = ''FOO_BAR'', arg = None\<rparr>] [PyInt 1] RUNNING)
                           \<lparr>pointer := 1\<rparr>)"
proof -
  let ?I = "\<lparr>opname = ''FOO_BAR'', arg = None\<rparr>"
  let ?E = "engine_with (frame [?I] [PyInt 1] SUSPENDED)"
  have h1: "pointer (heap ?E 0) < length (instructions (heap ?E 0))"
    by (simp add: sample_defs)
  have h2: "instructions (heap ?E 0) ! pointer (heap ?E 0) = ?I"
    by (simp add: sample_defs)
  have h3: "opname ?I \<noteq> ''CALL_FUNCTION''" by simp
  have h4: "handlers sample_host (opname ?I) = None"
    by (simp add: sample_defs sample_handlers_def)
  have s: "state (heap ?E 0) \<noteq> FINISHED \<and> state (heap ?E 0) \<noteq> ERRORED"
    by (simp add: sample_defs)
  have v: "opname ?I = ''FOO_BAR''"
    "(heap ?E 0)\<lparr>pointer := Suc (pointer (heap ?E 0))\<rparr> = (frame [?I] [PyInt 1] SUSPENDED)\<lparr>pointer := 1\<rparr>"
    "(heap ?E 0)\<lparr>state := RUNNING, pointer := Suc (pointer (heap ?E 0))\<rparr> =
       (frame [?I] [PyInt 1] RUNNING)\<lparr>pointer := 1\<rparr>"
    by (simp_all add: sample_defs)
  from unsupported_opcode_raises_and_keeps_state[OF h1 h2 h3 h4] s
  show ?thesis unfolding v by blast
qed

end
